theory Spec2Isabelle
  imports Complex_Main
begin

section \<open>Errors\<close>

text \<open>
  What the code throws: a plain \<open>Error\<close> with its message, or the subclass
  \<open>StorageError\<close> of upload-storage.ts with its message and code.
\<close>

datatype StorageErrorCode = QUOTA_EXCEEDED | STORAGE_UNAVAILABLE | OPERATION_FAILED

datatype js_error = Error string | StorageError string StorageErrorCode

section \<open>Chunk-size adjuster (packages/core/src/chunk-size-adjuster.ts)\<close>

text \<open>
  JavaScript numbers are modelled as reals in this section. Doubling, halving,
  \<open>Math.min\<close>, \<open>Math.max\<close> and the comparisons are exact on finite doubles. A product such
  as \<open>targetTime * 1.5\<close> is not: IEEE 754 arithmetic rounds it to the nearest double, ties
  to the even significand. \<open>fl\<close> is that rounding: with \<open>2^k \<le> |x| < 2^(k+1)\<close> the doubles
  near \<open>x\<close> are the multiples of \<open>2^(k-52)\<close>. The exponent is not bounded: \<open>NaN\<close>, the
  infinities, and products beyond the largest or below the smallest normal double are
  left out of the model.
\<close>

definition round_half_even :: "real \<Rightarrow> int" where
  "round_half_even y =
     (let f = \<lfloor>y\<rfloor>; d = y - of_int f
      in if d < 1 / 2 then f else if 1 / 2 < d then f + 1 else if even f then f else f + 1)"

definition fl :: "real \<Rightarrow> real" where
  "fl x =
     (if x = 0 then 0
      else let e = \<lfloor>log 2 \<bar>x\<bar>\<rfloor> - 52
           in of_int (round_half_even (x / 2 powr of_int e)) * 2 powr of_int e)"

text \<open>
  \<open>BaseChunkSizeAdjusterOptions\<close>: \<open>targetTime\<close> is an optional property, absent as \<open>None\<close>.
\<close>

record ChunkSizeAdjusterOptions =
  initialSize :: real
  minSize :: real
  maxSize :: real
  targetTime :: "real option"

text \<open>
  The object: its private \<open>currentSize\<close> and its \<open>options\<close> of type
  \<open>Required<ChunkSizeAdjusterOptions>\<close>, one field per property of \<open>this.options\<close>.
\<close>

record ChunkSizeAdjuster =
  currentSize :: real
  options_initialSize :: real
  options_minSize :: real
  options_maxSize :: real
  options_targetTime :: real

text \<open>
  The constructor assigns \<open>currentSize\<close>, spreads the options over the default
  \<open>targetTime: 3000\<close>, then validates in the order of the source; a \<open>throw\<close> is \<open>Inl\<close>.
\<close>

definition new_ChunkSizeAdjuster :: "ChunkSizeAdjusterOptions \<Rightarrow> js_error + ChunkSizeAdjuster" where
  "new_ChunkSizeAdjuster opts =
     (let this = \<lparr>currentSize = initialSize opts,
                  options_initialSize = initialSize opts,
                  options_minSize = minSize opts,
                  options_maxSize = maxSize opts,
                  options_targetTime = (case targetTime opts of None \<Rightarrow> 3000 | Some t \<Rightarrow> t)\<rparr>
      in if options_minSize this > options_maxSize this
           then Inl (Error ''minSize cannot be greater than maxSize'')
         else if options_initialSize this < options_minSize this
                 \<or> options_initialSize this > options_maxSize this
           then Inl (Error ''initialSize must be between minSize and maxSize'')
         else if options_targetTime this \<le> 0
           then Inl (Error ''targetTime must be positive'')
         else Inr this)"

text \<open>
  \<open>adjust\<close> returns what the call returns or throws, together with the object after the
  call: an exception does not roll the object back, so the state is returned in both cases.
  The two thresholds are the double products \<open>targetTime * 0.5\<close> and \<open>targetTime * 1.5\<close>.
\<close>

definition adjust :: "real \<Rightarrow> ChunkSizeAdjuster \<Rightarrow> (js_error + real) \<times> ChunkSizeAdjuster" where
  "adjust uploadTimeMs this =
     (if uploadTimeMs < 0 then (Inl (Error ''uploadTimeMs cannot be negative''), this)
      else
        let this' =
          (if uploadTimeMs < fl (options_targetTime this * 0.5)
             then this\<lparr>currentSize := min (currentSize this * 2) (options_maxSize this)\<rparr>
           else if uploadTimeMs > fl (options_targetTime this * 1.5)
             then this\<lparr>currentSize := max (currentSize this / 2) (options_minSize this)\<rparr>
           else this)
        in (Inr (currentSize this'), this'))"

definition getCurrentSize :: "ChunkSizeAdjuster \<Rightarrow> real" where
  "getCurrentSize this = currentSize this"

definition reset :: "ChunkSizeAdjuster \<Rightarrow> ChunkSizeAdjuster" where
  "reset this = this\<lparr>currentSize := options_initialSize this\<rparr>"

text \<open>A caller making one \<open>adjust\<close> call per upload time of the list, in order.\<close>

fun adjust_all :: "real list \<Rightarrow> ChunkSizeAdjuster \<Rightarrow> ChunkSizeAdjuster" where
  "adjust_all [] this = this"
| "adjust_all (t # ts) this = adjust_all ts (snd (adjust t this))"

text \<open>
  The invariant that one \<open>adjust\<close> call preserves: the size lies within the bounds and is
  not negative. Without the sign condition doubling moves a negative size away from
  \<open>maxSize\<close> and below \<open>minSize\<close>.
\<close>

definition size_inv :: "ChunkSizeAdjuster \<Rightarrow> bool" where
  "size_inv this \<longleftrightarrow>
     0 \<le> currentSize this \<and> options_minSize this \<le> currentSize this
     \<and> currentSize this \<le> options_maxSize this"

section \<open>Rendering and reading decimal numbers\<close>

text \<open>
  A template literal renders a number in decimal, and \<open>parseInt\<close> reads one. Both are
  modelled on integers; \<open>is_digit\<close> is the digit class of a JavaScript regular
  expression without the unicode flag, the ASCII digits.
\<close>

definition digit_char :: "nat \<Rightarrow> char" where
  "digit_char d = ''0123456789'' ! d"

fun show_nat :: "nat \<Rightarrow> string" where
  "show_nat n = (if n < 10 then [digit_char n] else show_nat (n div 10) @ [digit_char (n mod 10)])"

declare show_nat.simps [simp del]

definition show_int :: "int \<Rightarrow> string" where
  "show_int i = (if i < 0 then CHR ''-'' # show_nat (nat (- i)) else show_nat (nat i))"

definition is_digit :: "char \<Rightarrow> bool" where
  "is_digit c \<longleftrightarrow> (48::nat) \<le> of_char c \<and> of_char c \<le> (57::nat)"

text \<open>\<open>parseInt\<close> on a non-empty string of digits, the only strings the source passes to it.\<close>

definition parseInt :: "string \<Rightarrow> int" where
  "parseInt ds = int (foldl (\<lambda>acc c. 10 * acc + (of_char c - 48)) 0 ds)"

text \<open>A string between the double quotes that a template literal writes around it.\<close>

definition quoted :: "string \<Rightarrow> string" where
  "quoted s = CHR 0x22 # s @ [CHR 0x22]"

section \<open>Upload records and their IndexedDB store (packages/shared/src/upload-storage.ts)\<close>

text \<open>
  \<open>number\<close> fields that hold byte counts, chunk indices and epoch milliseconds are
  integers. The field names of \<open>FileInfo\<close> carry a prefix, since \<open>size\<close> and \<open>name\<close> are
  taken.
\<close>

record FileInfo =
  fileInfo_name :: string
  fileInfo_size :: int
  fileInfo_type :: string
  fileInfo_hash :: "string option"
  fileInfo_lastModified :: int

record UploadRecord =
  taskId :: string
  fileInfo :: FileInfo
  uploadedChunks :: "int list"
  uploadToken :: string
  createdAt :: int
  updatedAt :: int

text \<open>\<open>Partial<UploadRecord>\<close>: every property may be absent.\<close>

record UploadRecordPartial =
  partial_taskId :: "string option"
  partial_fileInfo :: "FileInfo option"
  partial_uploadedChunks :: "int list option"
  partial_uploadToken :: "string option"
  partial_createdAt :: "int option"
  partial_updatedAt :: "int option"

text \<open>
  The object store \<open>uploads\<close> of the browser's database, with key path \<open>taskId\<close>: a map from
  keys to records. It lives outside the \<open>UploadStorage\<close> object, which only holds a
  connection, so it is passed and returned explicitly.
\<close>

type_synonym IDBObjectStore = "string \<rightharpoonup> UploadRecord"

text \<open>
  How the browser answers one request: its \<open>onsuccess\<close> handler runs, or its \<open>onerror\<close>
  handler runs with \<open>request.error\<close> (name and message), or the transaction's \<open>onerror\<close>
  runs, or opening the transaction throws.
\<close>

datatype idb_outcome =
    onsuccess
  | onerror string string
  | transaction_onerror string
  | thrown string

datatype IDBDatabase = IDBDatabase

record UploadStorage =
  db :: "IDBDatabase option"
  isSupported :: bool

definition isAvailable :: "UploadStorage \<Rightarrow> bool" where
  "isAvailable this \<longleftrightarrow> isSupported this \<and> db this \<noteq> None"

text \<open>
  \<open>saveRecord\<close>: \<open>objectStore.put(record)\<close> stores the record under its \<open>taskId\<close>. The
  result pairs what the promise settles with and the object store afterwards.
\<close>

definition saveRecord ::
  "UploadRecord \<Rightarrow> idb_outcome \<Rightarrow> UploadStorage \<Rightarrow> IDBObjectStore \<Rightarrow> (js_error + unit) \<times> IDBObjectStore" where
  "saveRecord record outcome this store =
     (if \<not> isSupported this \<or> db this = None
        then (Inl (StorageError ''Storage is not initialized'' STORAGE_UNAVAILABLE), store)
      else case outcome of
          onsuccess \<Rightarrow> (Inr (), store(taskId record \<mapsto> record))
        | onerror ename message \<Rightarrow>
            (if ename = ''QuotaExceededError''
               then (Inl (StorageError ''Storage quota exceeded'' QUOTA_EXCEEDED), store)
             else (Inl (StorageError (''Failed to save record: '' @ message) OPERATION_FAILED), store))
        | transaction_onerror message \<Rightarrow>
            (Inl (StorageError (''Transaction failed: '' @ message) OPERATION_FAILED), store)
        | thrown message \<Rightarrow>
            (Inl (StorageError (''Failed to save record: '' @ message) OPERATION_FAILED), store))"

text \<open>
  \<open>getRecord\<close>: \<open>objectStore.get(taskId)\<close>, with \<open>request.result || null\<close> as \<open>None\<close> for a
  missing key. The source installs no transaction handler here; a transaction error is
  taken as the request's error.
\<close>

definition getRecord ::
  "string \<Rightarrow> idb_outcome \<Rightarrow> UploadStorage \<Rightarrow> IDBObjectStore \<Rightarrow> js_error + UploadRecord option" where
  "getRecord tid outcome this store =
     (if \<not> isSupported this \<or> db this = None
        then Inl (StorageError ''Storage is not initialized'' STORAGE_UNAVAILABLE)
      else case outcome of
          onsuccess \<Rightarrow> Inr (store tid)
        | onerror ename message \<Rightarrow>
            Inl (StorageError (''Failed to get record: '' @ message) OPERATION_FAILED)
        | transaction_onerror message \<Rightarrow>
            Inl (StorageError (''Failed to get record: '' @ message) OPERATION_FAILED)
        | thrown message \<Rightarrow>
            Inl (StorageError (''Failed to get record: '' @ message) OPERATION_FAILED))"

text \<open>
  The object spread \<open>{...existingRecord, ...updates, taskId, updatedAt: Date.now()}\<close>: a
  property of \<open>updates\<close> wins over the existing one, then \<open>taskId\<close> and \<open>updatedAt\<close> are
  overwritten. \<open>now\<close> is the reading of \<open>Date.now()\<close>.
\<close>

definition mergeRecord :: "UploadRecord \<Rightarrow> UploadRecordPartial \<Rightarrow> string \<Rightarrow> int \<Rightarrow> UploadRecord" where
  "mergeRecord existingRecord updates tid now =
     \<lparr>taskId = tid,
      fileInfo = (case partial_fileInfo updates of None \<Rightarrow> fileInfo existingRecord | Some v \<Rightarrow> v),
      uploadedChunks =
        (case partial_uploadedChunks updates of None \<Rightarrow> uploadedChunks existingRecord | Some v \<Rightarrow> v),
      uploadToken =
        (case partial_uploadToken updates of None \<Rightarrow> uploadToken existingRecord | Some v \<Rightarrow> v),
      createdAt = (case partial_createdAt updates of None \<Rightarrow> createdAt existingRecord | Some v \<Rightarrow> v),
      updatedAt = now\<rparr>"

text \<open>
  \<open>updateRecord\<close>: read, merge, write. \<open>get_outcome\<close> and \<open>put_outcome\<close> are the browser's
  answers to the two requests.
\<close>

definition updateRecord ::
  "string \<Rightarrow> UploadRecordPartial \<Rightarrow> int \<Rightarrow> idb_outcome \<Rightarrow> idb_outcome \<Rightarrow> UploadStorage \<Rightarrow> IDBObjectStore
     \<Rightarrow> (js_error + unit) \<times> IDBObjectStore" where
  "updateRecord tid updates now get_outcome put_outcome this store =
     (if \<not> isSupported this \<or> db this = None
        then (Inl (StorageError ''Storage is not initialized'' STORAGE_UNAVAILABLE), store)
      else case getRecord tid get_outcome this store of
          Inl e \<Rightarrow> (Inl e, store)
        | Inr None \<Rightarrow>
            (Inl (StorageError (''Record with taskId '' @ tid @ '' not found'') OPERATION_FAILED), store)
        | Inr (Some existingRecord) \<Rightarrow>
            saveRecord (mergeRecord existingRecord updates tid now) put_outcome this store)"

text \<open>
  \<open>deleteRecord\<close>: \<open>objectStore.delete(taskId)\<close>; as in \<open>getRecord\<close>, a transaction error is
  taken as the request's error.
\<close>

definition deleteRecord ::
  "string \<Rightarrow> idb_outcome \<Rightarrow> UploadStorage \<Rightarrow> IDBObjectStore \<Rightarrow> (js_error + unit) \<times> IDBObjectStore" where
  "deleteRecord tid outcome this store =
     (if \<not> isSupported this \<or> db this = None
        then (Inl (StorageError ''Storage is not initialized'' STORAGE_UNAVAILABLE), store)
      else case outcome of
          onsuccess \<Rightarrow> (Inr (), store(tid := None))
        | onerror ename message \<Rightarrow>
            (Inl (StorageError (''Failed to delete record: '' @ message) OPERATION_FAILED), store)
        | transaction_onerror message \<Rightarrow>
            (Inl (StorageError (''Failed to delete record: '' @ message) OPERATION_FAILED), store)
        | thrown message \<Rightarrow>
            (Inl (StorageError (''Failed to delete record: '' @ message) OPERATION_FAILED), store))"

section \<open>Resuming a task (packages/core/src/upload-manager.ts)\<close>

text \<open>The properties of a DOM \<open>File\<close> that the manager reads.\<close>

record File =
  file_name :: string
  file_size :: int
  file_type :: string
  file_lastModified :: int

text \<open>\<open>Partial<UploadTaskOptions>\<close>, the optional third argument of \<open>resumeTask\<close>.\<close>

record UploadTaskOptionsPartial =
  partial_chunkSize :: "int option"
  partial_concurrency :: "int option"
  partial_retryCount :: "int option"
  partial_retryDelay :: "int option"
  partial_autoStart :: "bool option"

text \<open>
  Modelled from the spec: the class \<open>UploadTask\<close> (upload-task.ts is not among the source
  files). A task is the options it was constructed with; constructed with \<open>resumeTaskId\<close>
  it reuses that id, keeps the token and the uploaded chunk indices, and \<open>listeners\<close> are
  the events on which \<open>task.on\<close> was called. The request adapter, a capability object, is
  left out. The fields \<open>id\<close> and \<open>file\<close> are \<open>task_id\<close> and \<open>task_file\<close> here.
\<close>

record UploadTask =
  task_id :: string
  task_file :: File
  chunkSize :: int
  concurrency :: int
  retryCount :: int
  retryDelay :: int
  autoStart :: bool
  resumeUploadToken :: string
  resumeUploadedChunks :: "int list"
  listeners :: "string list"

text \<open>
  A plugin: its name, the hooks it defines, and those of its hooks that throw. What a
  hook does is the plugin's business; the manager's state records which hooks ran
  (\<open>hook_calls\<close>: plugin, hook, task id) and what was written to the console.
\<close>

record Plugin =
  plugin_name :: string
  plugin_hooks :: "string list"
  plugin_throws :: "string list"

record UploadManager =
  tasks :: "(string \<times> UploadTask) list"
  defaultChunkSize :: int
  defaultConcurrency :: int
  storage :: UploadStorage
  initialized :: bool
  plugins :: "Plugin list"
  hook_calls :: "(string \<times> string \<times> string) list"
  console :: "string list"

text \<open>
  \<open>Map.prototype.set\<close> on an insertion-ordered \<open>Map\<close>: an existing key keeps its place
  and takes the new value, a new key goes to the end.
\<close>

fun Map_set :: "('k \<times> 'v) list \<Rightarrow> 'k \<Rightarrow> 'v \<Rightarrow> ('k \<times> 'v) list" where
  "Map_set [] k v = [(k, v)]"
| "Map_set ((k', v') # kvs) k v = (if k' = k then (k, v) # kvs else (k', v') # Map_set kvs k v)"

text \<open>
  \<open>callPluginHook\<close>: the plugins in registration order; a hook that throws is caught and
  reported with \<open>console.error\<close>, and the loop goes on.
\<close>

fun callPluginHook_loop ::
  "Plugin list \<Rightarrow> string \<Rightarrow> string \<Rightarrow> (string \<times> string \<times> string) list \<times> string list
     \<Rightarrow> (string \<times> string \<times> string) list \<times> string list" where
  "callPluginHook_loop [] hookName tid acc = acc"
| "callPluginHook_loop (plugin # rest) hookName tid (calls, out) =
     (if hookName \<in> set (plugin_hooks plugin)
        then callPluginHook_loop rest hookName tid
               (calls @ [(plugin_name plugin, hookName, tid)],
                if hookName \<in> set (plugin_throws plugin)
                  then out @ [''Plugin '' @ quoted (plugin_name plugin) @ '' hook '' @ quoted hookName @ '' failed:'']
                else out)
      else callPluginHook_loop rest hookName tid (calls, out))"

definition callPluginHook :: "string \<Rightarrow> UploadTask \<Rightarrow> UploadManager \<Rightarrow> UploadManager" where
  "callPluginHook hookName task this =
     (let (calls, out) = callPluginHook_loop (plugins this) hookName (task_id task) (hook_calls this, console this)
      in this\<lparr>hook_calls := calls, console := out\<rparr>)"

text \<open>\<open>setupTaskPluginHooks\<close> registers one listener per lifecycle event, in this order.\<close>

definition setupTaskPluginHooks :: "UploadTask \<Rightarrow> UploadTask" where
  "setupTaskPluginHooks task =
     task\<lparr>listeners := listeners task @
       [''start'', ''progress'', ''success'', ''error'', ''pause'', ''resume'', ''cancel'']\<rparr>"

text \<open>
  \<open>resumeTask(taskId, file, options)\<close>. The result is what the promise settles with, the
  manager afterwards, and the object store afterwards. \<open>get_outcome\<close> and
  \<open>delete_outcome\<close> are the browser's answers to the two IndexedDB requests. Every
  \<open>throw\<close> comes before the first write to the manager.
\<close>

definition resumeTask ::
  "string \<Rightarrow> File \<Rightarrow> UploadTaskOptionsPartial option \<Rightarrow> idb_outcome \<Rightarrow> idb_outcome
     \<Rightarrow> UploadManager \<Rightarrow> IDBObjectStore
     \<Rightarrow> (js_error + UploadTask) \<times> UploadManager \<times> IDBObjectStore" where
  "resumeTask tid f opts get_outcome delete_outcome this store =
     (if \<not> isAvailable (storage this)
        then (Inl (Error ''Storage is not available - cannot resume task''), this, store)
      else case getRecord tid get_outcome (storage this) store of
          Inl e \<Rightarrow> (Inl e, this, store)
        | Inr None \<Rightarrow> (Inl (Error (''No unfinished task found with ID: '' @ tid)), this, store)
        | Inr (Some record) \<Rightarrow>
            if file_name f \<noteq> fileInfo_name (fileInfo record)
              then (Inl (Error (''File name mismatch: expected '' @ quoted (fileInfo_name (fileInfo record))
                                @ '', got '' @ quoted (file_name f))), this, store)
            else if file_size f \<noteq> fileInfo_size (fileInfo record)
              then (Inl (Error (''File size mismatch: expected '' @ show_int (fileInfo_size (fileInfo record))
                                @ '', got '' @ show_int (file_size f))), this, store)
            else if file_type f \<noteq> fileInfo_type (fileInfo record)
              then (Inl (Error (''File type mismatch: expected '' @ quoted (fileInfo_type (fileInfo record))
                                @ '', got '' @ quoted (file_type f))), this, store)
            else
              let task0 =
                    \<lparr>task_id = tid, task_file = f,
                     chunkSize = (case Option.bind opts partial_chunkSize of
                                    None \<Rightarrow> defaultChunkSize this | Some v \<Rightarrow> v),
                     concurrency = (case Option.bind opts partial_concurrency of
                                      None \<Rightarrow> defaultConcurrency this | Some v \<Rightarrow> v),
                     retryCount = (case Option.bind opts partial_retryCount of None \<Rightarrow> 3 | Some v \<Rightarrow> v),
                     retryDelay = (case Option.bind opts partial_retryDelay of None \<Rightarrow> 1000 | Some v \<Rightarrow> v),
                     autoStart = (case Option.bind opts partial_autoStart of None \<Rightarrow> False | Some v \<Rightarrow> v),
                     resumeUploadToken = uploadToken record,
                     resumeUploadedChunks = uploadedChunks record,
                     listeners = []\<rparr>;
                  task = setupTaskPluginHooks task0;
                  this1 = this\<lparr>tasks := Map_set (tasks this) (task_id task) task\<rparr>;
                  this2 = callPluginHook ''onTaskCreated'' task this1
              in case deleteRecord tid delete_outcome (storage this2) store of
                   (Inl e, store') \<Rightarrow>
                     (Inr task,
                      this2\<lparr>console := console this2 @
                         [''Failed to delete old storage record for task '' @ tid @ '':'']\<rparr>,
                      store')
                 | (Inr u, store') \<Rightarrow> (Inr task, this2, store'))"

section \<open>Serving a file (\<open>UploadController.getFile\<close> of the server application)\<close>

type_synonym byte = char

datatype FileStatus = pending | completed

text \<open>
  Modelled from the spec: the \<open>UploadService\<close> of the package upload-server, which is
  not among the source files; the controller only calls it. A file's metadata is its
  Manifest (\<section>3: ordered chunk hashes, total size, MIME type, completion status), and the
  BlobStore maps a chunk hash to the chunk's bytes.
\<close>

record FileMetadata =
  chunkHashes :: "string list"
  metadata_size :: int
  mimeType :: "string option"
  status :: FileStatus

record UploadService =
  manifests :: "string \<rightharpoonup> FileMetadata"
  blobs :: "string \<rightharpoonup> byte list"

record FileStream =
  stream :: "byte list"
  stream_mimeType :: "string option"

text \<open>
  Modelled from the spec: \<open>getFileMetadata\<close> of the absent \<open>UploadService\<close> looks the
  Manifest up; a missing file is \<open>null\<close>.
\<close>

definition getFileMetadata :: "UploadService \<Rightarrow> string \<Rightarrow> FileMetadata option" where
  "getFileMetadata uploadService fileId = manifests uploadService fileId"

text \<open>
  Modelled from the spec: the read loop of the absent \<open>getFileStream\<close> (\<section>4.9): the
  ordered chunk blobs are read one after the other; with a range of absolute file
  offsets, for each chunk its overlap with \<open>[start, end]\<close> is computed and only the
  overlapping slice is read; the slices are concatenated. \<open>offset\<close> is the file offset of
  the first byte of the next chunk.
\<close>

fun read_chunks :: "int \<Rightarrow> (int \<times> int) option \<Rightarrow> byte list list \<Rightarrow> byte list" where
  "read_chunks offset rng [] = []"
| "read_chunks offset rng (chunk # rest) =
     (case rng of
        None \<Rightarrow> chunk
      | Some (range_start, range_end) \<Rightarrow>
          (let lo = max range_start offset;
               hi = min range_end (offset + int (length chunk) - 1)
           in if lo \<le> hi then take (nat (hi - lo + 1)) (drop (nat (lo - offset)) chunk) else []))
     @ read_chunks (offset + int (length chunk)) rng rest"

text \<open>
  Modelled from the spec: \<open>getFileStream(fileId, range?)\<close> of the absent \<open>UploadService\<close>
  (\<section>4.9): look up the Manifest; an incomplete file fails with \<open>NotFound\<close>; otherwise the
  stream reads the chunk blobs in manifest order. A missing file is \<open>null\<close>, which the
  controller tests for; a chunk hash without a blob is an error.
\<close>

definition getFileStream ::
  "UploadService \<Rightarrow> string \<Rightarrow> (int \<times> int) option \<Rightarrow> js_error + FileStream option" where
  "getFileStream uploadService fileId rng =
     (case manifests uploadService fileId of
        None \<Rightarrow> Inr None
      | Some manifest \<Rightarrow>
          if status manifest \<noteq> completed then Inl (Error ''NotFound'')
          else case those (map (blobs uploadService) (chunkHashes manifest)) of
                 None \<Rightarrow> Inl (Error ''NotFound'')
               | Some chunks \<Rightarrow>
                   Inr (Some \<lparr>stream = read_chunks 0 rng chunks,
                              stream_mimeType = mimeType manifest\<rparr>))"

text \<open>
  \<open>rangeHeader.match\<close> with the regular expression \<open>bytes=(D+)-(D*)\<close>, where \<open>D\<close> stands
  for the digit class. The expression is not anchored, so the match is the leftmost one. At one position it needs the text \<open>bytes=\<close>, then the longest run
  of digits, which must not be empty and must be followed by \<open>-\<close> (a shorter run would be
  followed by a digit), then the longest run of digits, which may be empty. The result
  is the two captured groups.
\<close>

definition match_here :: "string \<Rightarrow> (string \<times> string) option" where
  "match_here s =
     (if take 6 s = ''bytes='' then
        let ds = takeWhile is_digit (drop 6 s);
            rest = dropWhile is_digit (drop 6 s)
        in if ds \<noteq> [] \<and> rest \<noteq> [] \<and> hd rest = CHR ''-''
             then Some (ds, takeWhile is_digit (tl rest))
           else None
      else None)"

fun match_range :: "string \<Rightarrow> (string \<times> string) option" where
  "match_range [] = None"
| "match_range (c # cs) =
     (case match_here (c # cs) of Some m \<Rightarrow> Some m | None \<Rightarrow> match_range cs)"

text \<open>
  The range that \<open>getFile\<close> derives from the header and the file's size: \<open>undefined\<close> when
  the header is absent or empty, does not match, or starts at or after the end of the
  file; otherwise the end is clamped to the last byte. The start is not compared with
  the end.
\<close>

definition parse_range :: "string option \<Rightarrow> int \<Rightarrow> (int \<times> int) option" where
  "parse_range rangeHeader fileSize =
     (case rangeHeader of
        None \<Rightarrow> None
      | Some h \<Rightarrow>
          if h = [] then None
          else case match_range h of
                 None \<Rightarrow> None
               | Some (m1, m2) \<Rightarrow>
                   let range_start = parseInt m1;
                       range_end = (if m2 \<noteq> [] then parseInt m2 else fileSize - 1)
                   in if range_start < fileSize
                        then Some (range_start, min range_end (fileSize - 1))
                      else None)"

datatype header_value = HString string | HNumber int

record FastifyReply =
  statusCode :: int
  headers :: "(string \<times> header_value) list"
  payload :: "byte list"

datatype HttpException = HttpException string int

text \<open>
  \<open>getFile\<close>: every error inside the \<open>try\<close> becomes an \<open>HttpException\<close> with the error's
  message and status 404 (\<open>HttpStatus.NOT_FOUND\<close>). The headers are listed in the order
  in which they are set.
\<close>

definition getFile :: "UploadService \<Rightarrow> string \<Rightarrow> string option \<Rightarrow> HttpException + FastifyReply" where
  "getFile uploadService fileId rangeHeader =
     (case getFileMetadata uploadService fileId of
        None \<Rightarrow> Inl (HttpException ''File not found or not completed'' 404)
      | Some fileMetadata \<Rightarrow>
          if status fileMetadata \<noteq> completed
            then Inl (HttpException ''File not found or not completed'' 404)
          else
            let rng = parse_range rangeHeader (metadata_size fileMetadata)
            in case getFileStream uploadService fileId rng of
                 Inl (Error message) \<Rightarrow> Inl (HttpException message 404)
               | Inl (StorageError message code) \<Rightarrow> Inl (HttpException message 404)
               | Inr None \<Rightarrow> Inl (HttpException ''File not found or not completed'' 404)
               | Inr (Some result) \<Rightarrow>
                   Inr \<lparr>statusCode = (if rng \<noteq> None then 206 else 200),
                        headers =
                          [(''Content-Type'',
                            HString (case stream_mimeType result of
                                       None \<Rightarrow> ''application/octet-stream''
                                     | Some t \<Rightarrow> if t = [] then ''application/octet-stream'' else t)),
                           (''Accept-Ranges'', HString ''bytes'')]
                          @ (case rng of
                               Some (range_start, range_end) \<Rightarrow>
                                 [(''Content-Range'',
                                   HString (''bytes '' @ show_int range_start @ ''-'' @ show_int range_end
                                            @ ''/'' @ show_int (metadata_size fileMetadata))),
                                  (''Content-Length'', HNumber (range_end - range_start + 1))]
                             | None \<Rightarrow> [(''Content-Length'', HNumber (metadata_size fileMetadata))]),
                        payload = stream result\<rparr>)"

text \<open>
  The route of \<open>getFile\<close>. The class is declared with \<open>@Controller("upload")\<close> and the
  method with \<open>@Get("files/:fileId")\<close>, so the handler serves \<open>GET /upload/files/:fileId\<close>,
  where the parameter is one path segment that is not empty. It is the only \<open>@Get\<close> route
  of the controller.
\<close>

definition route_getFile :: "string \<Rightarrow> string option" where
  "route_getFile path =
     (if take 14 path = ''/upload/files/'' \<and> drop 14 path \<noteq> [] \<and> CHR ''/'' \<notin> set (drop 14 path)
        then Some (drop 14 path)
      else None)"

text \<open>
  A \<open>GET\<close> request with the given path and \<open>Range\<close> header, as the controller sees it:
  \<open>None\<close> when the path is not the route of \<open>getFile\<close> and the handler is not called,
  otherwise what the handler answers for the file id taken from the path.
\<close>

definition GET_request ::
  "UploadService \<Rightarrow> string \<Rightarrow> string option \<Rightarrow> (HttpException + FastifyReply) option" where
  "GET_request uploadService path rangeHeader =
     (case route_getFile path of
        None \<Rightarrow> None
      | Some fileId \<Rightarrow> Some (getFile uploadService fileId rangeHeader))"

section \<open>Concurrency controller (packages/shared/src/concurrency-controller.ts)\<close>

text \<open>
  Modelled from the spec: the limiter that \<open>pLimit(n)\<close> returns. The package p-limit is a
  dependency and not among the source files; \<section>4.3 and the doc comments of the controller
  say what it does: a submitted unit executes once the active count is below the limit
  and waits in a queue otherwise, pending units are released in submission order when
  an active unit settles, and \<open>clearQueue\<close> discards the pending units only. Work units
  are named by numbers.
\<close>

record Limiter =
  limiter_concurrency :: int
  active :: "nat list"
  queue :: "nat list"

definition pLimit :: "int \<Rightarrow> Limiter" where
  "pLimit n = \<lparr>limiter_concurrency = n, active = [], queue = []\<rparr>"

text \<open>Start the unit at the head of the queue if the active count is below the limit.\<close>

definition limiter_next :: "Limiter \<Rightarrow> Limiter" where
  "limiter_next l =
     (case queue l of
        [] \<Rightarrow> l
      | fn # rest \<Rightarrow>
          if int (length (active l)) < limiter_concurrency l
            then l\<lparr>active := active l @ [fn], queue := rest\<rparr>
          else l)"

text \<open>\<open>limiter(fn)\<close>: the unit joins the queue and starts at once if a slot is free.\<close>

definition limiter_call :: "nat \<Rightarrow> Limiter \<Rightarrow> Limiter" where
  "limiter_call fn l = limiter_next (l\<lparr>queue := queue l @ [fn]\<rparr>)"

text \<open>The promise of an active unit settles: its slot goes to the head of the queue.\<close>

definition limiter_settle :: "nat \<Rightarrow> Limiter \<Rightarrow> Limiter" where
  "limiter_settle fn l =
     (if fn \<in> set (active l) then limiter_next (l\<lparr>active := remove1 fn (active l)\<rparr>) else l)"

definition limiter_clearQueue :: "Limiter \<Rightarrow> Limiter" where
  "limiter_clearQueue l = l\<lparr>queue := []\<rparr>"

text \<open>
  The controller and the limiters it has created. \<open>updateLimit\<close> assigns a new limiter to
  \<open>this.limiter\<close>, and the units submitted before stay with the limiter they were
  submitted to, so the limiters are kept in a store: \<open>limiters\<close> lists every limiter
  created so far and \<open>limiter\<close> is the address of the one \<open>this.limiter\<close> refers to.
\<close>

record ConcurrencyController =
  limiters :: "Limiter list"
  limiter :: nat
  currentLimit :: int

definition new_ConcurrencyController :: "int \<Rightarrow> ConcurrencyController" where
  "new_ConcurrencyController n = \<lparr>limiters = [pLimit n], limiter = 0, currentLimit = n\<rparr>"

definition run :: "nat \<Rightarrow> ConcurrencyController \<Rightarrow> ConcurrencyController" where
  "run fn this =
     this\<lparr>limiters := (limiters this)[limiter this := limiter_call fn (limiters this ! limiter this)]\<rparr>"

definition updateLimit :: "int \<Rightarrow> ConcurrencyController \<Rightarrow> (js_error + unit) \<times> ConcurrencyController" where
  "updateLimit newLimit this =
     (if newLimit \<le> 0 then (Inl (Error ''Concurrency limit must be greater than 0''), this)
      else (Inr (),
            this\<lparr>currentLimit := newLimit,
                 limiters := limiters this @ [pLimit newLimit],
                 limiter := length (limiters this)\<rparr>))"

definition getLimit :: "ConcurrencyController \<Rightarrow> int" where
  "getLimit this = currentLimit this"

definition pendingCount :: "ConcurrencyController \<Rightarrow> nat" where
  "pendingCount this = length (queue (limiters this ! limiter this))"

definition activeCount :: "ConcurrencyController \<Rightarrow> nat" where
  "activeCount this = length (active (limiters this ! limiter this))"

definition clearQueue :: "ConcurrencyController \<Rightarrow> ConcurrencyController" where
  "clearQueue this =
     this\<lparr>limiters := (limiters this)[limiter this := limiter_clearQueue (limiters this ! limiter this)]\<rparr>"

text \<open>
  A unit settles on whichever limiter it is active on; that limiter, current or
  replaced, then releases the head of its own queue.
\<close>

definition settle :: "nat \<Rightarrow> ConcurrencyController \<Rightarrow> ConcurrencyController" where
  "settle fn this = this\<lparr>limiters := map (limiter_settle fn) (limiters this)\<rparr>"

text \<open>
  What can happen to a controller: a call of one of its methods, or an active unit
  settling. A call that throws leaves the controller as it was.
\<close>

datatype event = Run nat | Settle nat | UpdateLimit int | ClearQueue

fun step :: "event \<Rightarrow> ConcurrencyController \<Rightarrow> ConcurrencyController" where
  "step (Run fn) this = run fn this"
| "step (Settle fn) this = settle fn this"
| "step (UpdateLimit n) this = snd (updateLimit n this)"
| "step ClearQueue this = clearQueue this"

fun steps :: "event list \<Rightarrow> ConcurrencyController \<Rightarrow> ConcurrencyController" where
  "steps [] this = this"
| "steps (e # es) this = steps es (step e this)"

text \<open>
  The units submitted and not yet started, and the units running, over all limiters.
\<close>

definition pending_units :: "ConcurrencyController \<Rightarrow> nat list" where
  "pending_units this = concat (map queue (limiters this))"

definition active_units :: "ConcurrencyController \<Rightarrow> nat list" where
  "active_units this = concat (map active (limiters this))"

text \<open>Every unit that a limiter of the controller still holds, queued or running.\<close>

definition units :: "ConcurrencyController \<Rightarrow> nat set" where
  "units this = (\<Union>l \<in> set (limiters this). set (queue l) \<union> set (active l))"

section \<open>Properties of rounding to a double\<close>


lemma round_half_even_of_int: "round_half_even (of_int n) = n"
  by (simp add: round_half_even_def)

lemma fl_exponent:
  assumes "2 powr of_int k \<le> \<bar>x\<bar>" and "\<bar>x\<bar> < 2 powr of_int (k + 1)"
  shows "fl x = of_int (round_half_even (x / 2 powr of_int (k - 52))) * 2 powr of_int (k - 52)"
proof -
  have pos: "0 < \<bar>x\<bar>" using assms(1) by (smt (verit) powr_gt_zero)
  then have "\<lfloor>log 2 \<bar>x\<bar>\<rfloor> = k"
    using assms by (simp add: floor_log_eq_powr_iff)
  with pos show ?thesis by (simp add: fl_def)
qed

lemma powr_neg_nat: "(2::real) powr of_int (- int n) = 1 / 2 ^ n"
  by (simp add: powr_minus powr_realpow inverse_eq_divide)

lemma fl_eval:
  assumes "2 ^ 52 \<le> \<bar>x\<bar> * 2 ^ n" and "\<bar>x\<bar> * 2 ^ n < 2 ^ 53"
  shows "fl x = of_int (round_half_even (x * 2 ^ n)) / 2 ^ n"
proof -
  have p: "(2::real) powr of_int (52 - int n) = 2 ^ 52 / 2 ^ n"
    by (simp add: powr_diff powr_realpow)
  have q: "(2::real) powr of_int (52 - int n + 1) = 2 ^ 53 / 2 ^ n"
    by (simp add: powr_diff powr_add powr_realpow)
  have r: "(2::real) powr of_int (52 - int n - 52) = 1 / 2 ^ n"
    using powr_neg_nat [of n] by simp
  have 1: "2 powr of_int (52 - int n) \<le> \<bar>x\<bar>"
    unfolding p using assms(1) by (simp add: field_simps)
  have 2: "\<bar>x\<bar> < 2 powr of_int (52 - int n + 1)"
    unfolding q using assms(2) by (simp add: field_simps)
  show ?thesis
    unfolding fl_exponent [OF 1 2] r by simp
qed





section \<open>Properties of the chunk-size adjuster\<close>

lemma new_ChunkSizeAdjuster_Inr_iff:
  "new_ChunkSizeAdjuster opts = Inr a \<longleftrightarrow>
     (minSize opts \<le> initialSize opts \<and> initialSize opts \<le> maxSize opts
      \<and> 0 < (case targetTime opts of None \<Rightarrow> 3000 | Some t \<Rightarrow> t)
      \<and> a = \<lparr>currentSize = initialSize opts,
                  options_initialSize = initialSize opts,
                  options_minSize = minSize opts,
                  options_maxSize = maxSize opts,
                  options_targetTime = (case targetTime opts of None \<Rightarrow> 3000 | Some t \<Rightarrow> t)\<rparr>)"
  by (auto simp: new_ChunkSizeAdjuster_def Let_def)

lemma constructed_targetTime_pos:
  "new_ChunkSizeAdjuster opts = Inr a \<Longrightarrow> 0 < options_targetTime a"
  by (simp add: new_ChunkSizeAdjuster_Inr_iff)

text \<open>\<open>adjust\<close> never writes to \<open>this.options\<close>.\<close>

lemma adjust_options:
  "options_minSize (snd (adjust t this)) = options_minSize this"
  "options_maxSize (snd (adjust t this)) = options_maxSize this"
  "options_targetTime (snd (adjust t this)) = options_targetTime this"
  "options_initialSize (snd (adjust t this)) = options_initialSize this"
  by (simp_all add: adjust_def Let_def)

lemma adjust_all_options:
  "options_minSize (adjust_all ts this) = options_minSize this"
  "options_maxSize (adjust_all ts this) = options_maxSize this"
  "options_targetTime (adjust_all ts this) = options_targetTime this"
  by (induction ts arbitrary: this) (simp_all add: adjust_options)

lemma adjust_size_inv: "size_inv this \<Longrightarrow> size_inv (snd (adjust t this))"
  by (auto simp: adjust_def Let_def size_inv_def min_def max_def)

lemma adjust_all_size_inv: "size_inv this \<Longrightarrow> size_inv (adjust_all ts this)"
  by (induction ts arbitrary: this) (simp_all add: adjust_size_inv)

text \<open>
  C1, as stated, at options that pass the constructor's validation
  (\<open>minSize \<le> initialSize \<le> maxSize\<close>, \<open>targetTime > 0\<close>) but are negative: two instant
  uploads double \<open>-4\<close> to \<open>-16\<close>, below \<open>minSize = -10\<close>.
\<close>

theorem chunk_size_bounds_counterexample:
  "new_ChunkSizeAdjuster \<lparr>initialSize = - 4, minSize = - 10, maxSize = - 1, targetTime = Some 3000\<rparr>
     = Inr \<lparr>currentSize = - 4, options_initialSize = - 4, options_minSize = - 10,
            options_maxSize = - 1, options_targetTime = 3000\<rparr>
   \<and> (- 10 :: real) \<le> - 4 \<and> (- 4 :: real) \<le> - 1 \<and> (0 :: real) < 3000
   \<and> (0 :: real) \<le> 0
   \<and> getCurrentSize (adjust_all [0, 0]
         \<lparr>currentSize = - 4, options_initialSize = - 4, options_minSize = - 10,
            options_maxSize = - 1, options_targetTime = 3000\<rparr>) = - 16
   \<and> \<not> (- 10 :: real) \<le> getCurrentSize (adjust_all [0, 0]
         \<lparr>currentSize = - 4, options_initialSize = - 4, options_minSize = - 10,
            options_maxSize = - 1, options_targetTime = 3000\<rparr>)"
  by (simp add: new_ChunkSizeAdjuster_def adjust_def getCurrentSize_def
      fl_eval [where n = 42] fl_eval [where n = 40] round_half_even_def)

text \<open>
  C1, amended: for every adjuster constructed with valid options whose \<open>initialSize\<close> is
  not negative, after any sequence of \<open>adjust\<close> calls with non-negative upload times,
  \<open>minSize \<le> getCurrentSize() \<le> maxSize\<close>.
\<close>

theorem chunk_size_bounds:
  assumes "new_ChunkSizeAdjuster opts = Inr a"
    and "0 \<le> initialSize opts"
    and "\<forall>t \<in> set ts. 0 \<le> t"
  shows "minSize opts \<le> getCurrentSize (adjust_all ts a)
       \<and> getCurrentSize (adjust_all ts a) \<le> maxSize opts"
proof -
  from assms(1) have a: "options_minSize a = minSize opts" "options_maxSize a = maxSize opts"
    "currentSize a = initialSize opts" "minSize opts \<le> initialSize opts"
    "initialSize opts \<le> maxSize opts"
    by (simp_all add: new_ChunkSizeAdjuster_Inr_iff)
  with assms(2) have "size_inv a" by (simp add: size_inv_def)
  then have "size_inv (adjust_all ts a)" by (rule adjust_all_size_inv)
  then show ?thesis
    by (simp add: size_inv_def getCurrentSize_def adjust_all_options a)
qed

theorem chunk_size_bounds_witness:
  "new_ChunkSizeAdjuster \<lparr>initialSize = 1048576, minSize = 262144, maxSize = 10485760, targetTime = Some 3000\<rparr>
     = Inr \<lparr>currentSize = 1048576, options_initialSize = 1048576, options_minSize = 262144,
            options_maxSize = 10485760, options_targetTime = 3000\<rparr>
   \<and> (0::real) \<le> 1048576
   \<and> (0::real) \<le> 1000 \<and> (0::real) \<le> 5000 \<and> (0::real) \<le> 3000
   \<and> getCurrentSize (adjust_all [1000, 1000, 5000, 3000]
         \<lparr>currentSize = 1048576, options_initialSize = 1048576, options_minSize = 262144,
            options_maxSize = 10485760, options_targetTime = 3000\<rparr>) = 2097152
   \<and> (262144::real) \<le> getCurrentSize (adjust_all [1000, 1000, 5000, 3000]
         \<lparr>currentSize = 1048576, options_initialSize = 1048576, options_minSize = 262144,
            options_maxSize = 10485760, options_targetTime = 3000\<rparr>)
   \<and> getCurrentSize (adjust_all [1000, 1000, 5000, 3000]
         \<lparr>currentSize = 1048576, options_initialSize = 1048576, options_minSize = 262144,
            options_maxSize = 10485760, options_targetTime = 3000\<rparr>) \<le> (10485760::real)"
proof -
  let ?opts = "\<lparr>initialSize = 1048576, minSize = 262144, maxSize = 10485760, targetTime = Some 3000\<rparr>"
  let ?a = "\<lparr>currentSize = 1048576, options_initialSize = 1048576, options_minSize = 262144,
            options_maxSize = 10485760, options_targetTime = 3000\<rparr>"
  have c: "new_ChunkSizeAdjuster ?opts = Inr ?a"
    by (simp add: new_ChunkSizeAdjuster_def)
  have i: "0 \<le> initialSize ?opts" by simp
  have t: "\<forall>t \<in> set [1000, 1000, 5000, 3000 :: real]. 0 \<le> t" by simp
  have v: "getCurrentSize (adjust_all [1000, 1000, 5000, 3000] ?a) = 2097152"
    by (simp add: adjust_def getCurrentSize_def
        fl_eval [where n = 42] fl_eval [where n = 40] round_half_even_def)
  from chunk_size_bounds [OF c i t] c v show ?thesis by simp
qed





text \<open>
  C8: the constructor throws exactly when \<open>minSize > maxSize\<close>, or \<open>initialSize\<close> lies
  outside \<open>[minSize, maxSize]\<close>, or a \<open>targetTime \<le> 0\<close> is supplied; for all other options
  it succeeds and \<open>getCurrentSize()\<close> is \<open>initialSize\<close>.
\<close>

theorem constructor_rejects_exactly_invalid:
  "((\<exists>e. new_ChunkSizeAdjuster opts = Inl e) \<longleftrightarrow>
      (minSize opts > maxSize opts
       \<or> initialSize opts < minSize opts \<or> initialSize opts > maxSize opts
       \<or> (\<exists>t. targetTime opts = Some t \<and> t \<le> 0)))
   \<and> (\<not> (minSize opts > maxSize opts
          \<or> initialSize opts < minSize opts \<or> initialSize opts > maxSize opts
          \<or> (\<exists>t. targetTime opts = Some t \<and> t \<le> 0)) \<longrightarrow>
        (\<exists>a. new_ChunkSizeAdjuster opts = Inr a \<and> getCurrentSize a = initialSize opts))"
  by (auto simp: new_ChunkSizeAdjuster_def Let_def getCurrentSize_def split: option.splits)

theorem constructor_rejects_exactly_invalid_witness:
  "(\<exists>a. new_ChunkSizeAdjuster \<lparr>initialSize = 1048576, minSize = 262144, maxSize = 10485760, targetTime = None\<rparr> = Inr a
        \<and> getCurrentSize a = 1048576)
   \<and> (\<exists>e. new_ChunkSizeAdjuster \<lparr>initialSize = 1048576, minSize = 262144, maxSize = 10485760, targetTime = Some 0\<rparr> = Inl e)
   \<and> (\<exists>e. new_ChunkSizeAdjuster \<lparr>initialSize = 1048576, minSize = 10485760, maxSize = 1048576, targetTime = None\<rparr> = Inl e)
   \<and> (\<exists>e. new_ChunkSizeAdjuster \<lparr>initialSize = 102400, minSize = 262144, maxSize = 10485760, targetTime = None\<rparr> = Inl e)"
  using
    constructor_rejects_exactly_invalid [of "\<lparr>initialSize = 1048576, minSize = 262144, maxSize = 10485760, targetTime = None\<rparr>"]
    constructor_rejects_exactly_invalid [of "\<lparr>initialSize = 1048576, minSize = 262144, maxSize = 10485760, targetTime = Some 0\<rparr>"]
    constructor_rejects_exactly_invalid [of "\<lparr>initialSize = 1048576, minSize = 10485760, maxSize = 1048576, targetTime = None\<rparr>"]
    constructor_rejects_exactly_invalid [of "\<lparr>initialSize = 102400, minSize = 262144, maxSize = 10485760, targetTime = None\<rparr>"]
  by simp

text \<open>
  C10: for every \<open>uploadTimeMs < 0\<close>, \<open>adjust\<close> throws an \<open>Error\<close> with the message
  \<open>uploadTimeMs cannot be negative\<close> and leaves the object, so the current size, unchanged.
\<close>

theorem adjust_negative_throws:
  assumes "t < 0"
  shows "adjust t this = (Inl (Error ''uploadTimeMs cannot be negative''), this)
       \<and> getCurrentSize (snd (adjust t this)) = getCurrentSize this"
  using assms by (simp add: adjust_def)

theorem adjust_negative_throws_witness:
  "(- 100 :: real) < 0
   \<and> adjust (- 100) \<lparr>currentSize = 1048576, options_initialSize = 1048576, options_minSize = 262144,
            options_maxSize = 10485760, options_targetTime = 3000\<rparr>
     = (Inl (Error ''uploadTimeMs cannot be negative''),
        \<lparr>currentSize = 1048576, options_initialSize = 1048576, options_minSize = 262144,
            options_maxSize = 10485760, options_targetTime = 3000\<rparr>)"
  using adjust_negative_throws [of "- 100" "\<lparr>currentSize = 1048576, options_initialSize = 1048576, options_minSize = 262144,
            options_maxSize = 10485760, options_targetTime = 3000\<rparr>"]
  by simp

section \<open>Properties of the upload record store\<close>

text \<open>
  C6: after \<open>saveRecord(r)\<close> succeeds on an initialized \<open>UploadStorage\<close>, \<open>getRecord(r.taskId)\<close>
  returns a record equal to \<open>r\<close>. The hypothesis is that the save settled without an
  error, which only an initialized storage does; the read request is answered by its
  \<open>onsuccess\<close> handler.
\<close>

theorem save_then_get:
  assumes "saveRecord r put_outcome this store = (Inr (), store')"
  shows "getRecord (taskId r) onsuccess this store' = Inr (Some r)"
  using assms
  by (auto simp: saveRecord_def getRecord_def split: if_splits idb_outcome.splits)

theorem save_then_get_witness:
  "saveRecord
      \<lparr>taskId = ''task-1'',
        fileInfo = \<lparr>fileInfo_name = ''test.txt'', fileInfo_size = 1024, fileInfo_type = ''text/plain'',
                    fileInfo_hash = None, fileInfo_lastModified = 1700000000000\<rparr>,
        uploadedChunks = [0, 1], uploadToken = ''token-123'',
        createdAt = 1700000000000, updatedAt = 1700000000000\<rparr>
      onsuccess \<lparr>db = Some IDBDatabase, isSupported = True\<rparr> Map.empty
    = (Inr (), [''task-1'' \<mapsto> \<lparr>taskId = ''task-1'',
        fileInfo = \<lparr>fileInfo_name = ''test.txt'', fileInfo_size = 1024, fileInfo_type = ''text/plain'',
                    fileInfo_hash = None, fileInfo_lastModified = 1700000000000\<rparr>,
        uploadedChunks = [0, 1], uploadToken = ''token-123'',
        createdAt = 1700000000000, updatedAt = 1700000000000\<rparr>])
   \<and> getRecord ''task-1'' onsuccess \<lparr>db = Some IDBDatabase, isSupported = True\<rparr>
        [''task-1'' \<mapsto> \<lparr>taskId = ''task-1'',
        fileInfo = \<lparr>fileInfo_name = ''test.txt'', fileInfo_size = 1024, fileInfo_type = ''text/plain'',
                    fileInfo_hash = None, fileInfo_lastModified = 1700000000000\<rparr>,
        uploadedChunks = [0, 1], uploadToken = ''token-123'',
        createdAt = 1700000000000, updatedAt = 1700000000000\<rparr>]
     = Inr (Some \<lparr>taskId = ''task-1'',
        fileInfo = \<lparr>fileInfo_name = ''test.txt'', fileInfo_size = 1024, fileInfo_type = ''text/plain'',
                    fileInfo_hash = None, fileInfo_lastModified = 1700000000000\<rparr>,
        uploadedChunks = [0, 1], uploadToken = ''token-123'',
        createdAt = 1700000000000, updatedAt = 1700000000000\<rparr>)"
proof -
  let ?r = "\<lparr>taskId = ''task-1'',
        fileInfo = \<lparr>fileInfo_name = ''test.txt'', fileInfo_size = 1024, fileInfo_type = ''text/plain'',
                    fileInfo_hash = None, fileInfo_lastModified = 1700000000000\<rparr>,
        uploadedChunks = [0, 1], uploadToken = ''token-123'',
        createdAt = 1700000000000, updatedAt = 1700000000000\<rparr>"
  let ?st = "\<lparr>db = Some IDBDatabase, isSupported = True\<rparr>"
  have s: "saveRecord ?r onsuccess ?st Map.empty = (Inr (), [''task-1'' \<mapsto> ?r])"
    by (simp add: saveRecord_def)
  from save_then_get [OF s] s show ?thesis by simp
qed

text \<open>
  C5, as stated, at a stored record whose \<open>updatedAt\<close> (1800000000000) is later than the
  reading of \<open>Date.now()\<close> during the update (1700000000000): the record read back carries
  the clock reading, which is smaller than the \<open>updatedAt\<close> it replaces.
\<close>

theorem updateRecord_updatedAt_counterexample:
  "isAvailable \<lparr>db = Some IDBDatabase, isSupported = True\<rparr>
   \<and> [''task-1'' \<mapsto> \<lparr>taskId = ''task-1'',
        fileInfo = \<lparr>fileInfo_name = ''test.txt'', fileInfo_size = 1024, fileInfo_type = ''text/plain'',
                    fileInfo_hash = None, fileInfo_lastModified = 1700000000000\<rparr>,
        uploadedChunks = [0, 1], uploadToken = ''token-123'',
        createdAt = 1700000000000, updatedAt = 1800000000000\<rparr>] ''task-1''
      = Some \<lparr>taskId = ''task-1'',
        fileInfo = \<lparr>fileInfo_name = ''test.txt'', fileInfo_size = 1024, fileInfo_type = ''text/plain'',
                    fileInfo_hash = None, fileInfo_lastModified = 1700000000000\<rparr>,
        uploadedChunks = [0, 1], uploadToken = ''token-123'',
        createdAt = 1700000000000, updatedAt = 1800000000000\<rparr>
   \<and> updateRecord ''task-1''
        \<lparr>partial_taskId = None, partial_fileInfo = None, partial_uploadedChunks = None,
         partial_uploadToken = None, partial_createdAt = None, partial_updatedAt = None\<rparr>
        1700000000000 onsuccess onsuccess \<lparr>db = Some IDBDatabase, isSupported = True\<rparr>
        [''task-1'' \<mapsto> \<lparr>taskId = ''task-1'',
        fileInfo = \<lparr>fileInfo_name = ''test.txt'', fileInfo_size = 1024, fileInfo_type = ''text/plain'',
                    fileInfo_hash = None, fileInfo_lastModified = 1700000000000\<rparr>,
        uploadedChunks = [0, 1], uploadToken = ''token-123'',
        createdAt = 1700000000000, updatedAt = 1800000000000\<rparr>]
      = (Inr (), [''task-1'' \<mapsto> \<lparr>taskId = ''task-1'',
        fileInfo = \<lparr>fileInfo_name = ''test.txt'', fileInfo_size = 1024, fileInfo_type = ''text/plain'',
                    fileInfo_hash = None, fileInfo_lastModified = 1700000000000\<rparr>,
        uploadedChunks = [0, 1], uploadToken = ''token-123'',
        createdAt = 1700000000000, updatedAt = 1700000000000\<rparr>])
   \<and> getRecord ''task-1'' onsuccess \<lparr>db = Some IDBDatabase, isSupported = True\<rparr>
        [''task-1'' \<mapsto> \<lparr>taskId = ''task-1'',
        fileInfo = \<lparr>fileInfo_name = ''test.txt'', fileInfo_size = 1024, fileInfo_type = ''text/plain'',
                    fileInfo_hash = None, fileInfo_lastModified = 1700000000000\<rparr>,
        uploadedChunks = [0, 1], uploadToken = ''token-123'',
        createdAt = 1700000000000, updatedAt = 1700000000000\<rparr>]
      = Inr (Some \<lparr>taskId = ''task-1'',
        fileInfo = \<lparr>fileInfo_name = ''test.txt'', fileInfo_size = 1024, fileInfo_type = ''text/plain'',
                    fileInfo_hash = None, fileInfo_lastModified = 1700000000000\<rparr>,
        uploadedChunks = [0, 1], uploadToken = ''token-123'',
        createdAt = 1700000000000, updatedAt = 1700000000000\<rparr>)
   \<and> \<not> (1800000000000 :: int) \<le> 1700000000000"
  by (simp add: isAvailable_def updateRecord_def getRecord_def saveRecord_def mergeRecord_def)

text \<open>
  C5, amended: for every stored record \<open>r\<close> and every partial patch \<open>p\<close>,
  \<open>updateRecord(r.taskId, p)\<close> preserves every field of \<open>r\<close> that is absent from \<open>p\<close>, stamps
  \<open>updatedAt\<close> with the reading of \<open>Date.now()\<close> taken during the update whatever \<open>p\<close>
  supplies (a value \<open>\<ge> r.updatedAt\<close> whenever \<open>r.updatedAt\<close> is not later than that
  reading), and leaves \<open>taskId\<close> equal to \<open>r.taskId\<close> even if \<open>p\<close> supplies a different one;
  with the empty patch the record read back differs from \<open>r\<close> at most in \<open>updatedAt\<close>. Both
  IndexedDB requests are answered by their \<open>onsuccess\<close> handlers.
\<close>

theorem updateRecord_frame:
  assumes "isAvailable this" and "store (taskId r) = Some r"
  shows "updateRecord (taskId r) p now onsuccess onsuccess this store
           = (Inr (), store(taskId r \<mapsto> mergeRecord r p (taskId r) now))
       \<and> getRecord (taskId r) onsuccess this (store(taskId r \<mapsto> mergeRecord r p (taskId r) now))
           = Inr (Some (mergeRecord r p (taskId r) now))
       \<and> taskId (mergeRecord r p (taskId r) now) = taskId r
       \<and> updatedAt (mergeRecord r p (taskId r) now) = now
       \<and> (updatedAt r \<le> now \<longrightarrow> updatedAt r \<le> updatedAt (mergeRecord r p (taskId r) now))
       \<and> (partial_fileInfo p = None \<longrightarrow> fileInfo (mergeRecord r p (taskId r) now) = fileInfo r)
       \<and> (partial_uploadedChunks p = None \<longrightarrow>
             uploadedChunks (mergeRecord r p (taskId r) now) = uploadedChunks r)
       \<and> (partial_uploadToken p = None \<longrightarrow> uploadToken (mergeRecord r p (taskId r) now) = uploadToken r)
       \<and> (partial_createdAt p = None \<longrightarrow> createdAt (mergeRecord r p (taskId r) now) = createdAt r)
       \<and> (p = \<lparr>partial_taskId = None, partial_fileInfo = None, partial_uploadedChunks = None,
                partial_uploadToken = None, partial_createdAt = None, partial_updatedAt = None\<rparr> \<longrightarrow>
             mergeRecord r p (taskId r) now = r\<lparr>updatedAt := now\<rparr>)"
  using assms
  by (auto simp: updateRecord_def getRecord_def saveRecord_def isAvailable_def mergeRecord_def)

theorem updateRecord_frame_witness:
  "isAvailable \<lparr>db = Some IDBDatabase, isSupported = True\<rparr>
   \<and> [''task-1'' \<mapsto> \<lparr>taskId = ''task-1'',
        fileInfo = \<lparr>fileInfo_name = ''test.txt'', fileInfo_size = 1024, fileInfo_type = ''text/plain'',
                    fileInfo_hash = None, fileInfo_lastModified = 1700000000000\<rparr>,
        uploadedChunks = [0, 1], uploadToken = ''token-123'',
        createdAt = 1700000000000, updatedAt = 1700000000000\<rparr>] ''task-1''
      = Some \<lparr>taskId = ''task-1'',
        fileInfo = \<lparr>fileInfo_name = ''test.txt'', fileInfo_size = 1024, fileInfo_type = ''text/plain'',
                    fileInfo_hash = None, fileInfo_lastModified = 1700000000000\<rparr>,
        uploadedChunks = [0, 1], uploadToken = ''token-123'',
        createdAt = 1700000000000, updatedAt = 1700000000000\<rparr>
   \<and> updateRecord ''task-1''
        \<lparr>partial_taskId = Some ''task-2'', partial_fileInfo = None,
         partial_uploadedChunks = Some [0, 1, 2, 3, 4],
         partial_uploadToken = None, partial_createdAt = None, partial_updatedAt = Some 5\<rparr>
        1700000000042 onsuccess onsuccess \<lparr>db = Some IDBDatabase, isSupported = True\<rparr>
        [''task-1'' \<mapsto> \<lparr>taskId = ''task-1'',
        fileInfo = \<lparr>fileInfo_name = ''test.txt'', fileInfo_size = 1024, fileInfo_type = ''text/plain'',
                    fileInfo_hash = None, fileInfo_lastModified = 1700000000000\<rparr>,
        uploadedChunks = [0, 1], uploadToken = ''token-123'',
        createdAt = 1700000000000, updatedAt = 1700000000000\<rparr>]
      = (Inr (), [''task-1'' \<mapsto> \<lparr>taskId = ''task-1'',
        fileInfo = \<lparr>fileInfo_name = ''test.txt'', fileInfo_size = 1024, fileInfo_type = ''text/plain'',
                    fileInfo_hash = None, fileInfo_lastModified = 1700000000000\<rparr>,
        uploadedChunks = [0, 1, 2, 3, 4], uploadToken = ''token-123'',
        createdAt = 1700000000000, updatedAt = 1700000000042\<rparr>])
   \<and> (1700000000000 :: int) \<le> 1700000000042"
proof -
  let ?r = "\<lparr>taskId = ''task-1'',
        fileInfo = \<lparr>fileInfo_name = ''test.txt'', fileInfo_size = 1024, fileInfo_type = ''text/plain'',
                    fileInfo_hash = None, fileInfo_lastModified = 1700000000000\<rparr>,
        uploadedChunks = [0, 1], uploadToken = ''token-123'',
        createdAt = 1700000000000, updatedAt = 1700000000000\<rparr>"
  let ?st = "\<lparr>db = Some IDBDatabase, isSupported = True\<rparr>"
  let ?p = "\<lparr>partial_taskId = Some ''task-2'', partial_fileInfo = None,
         partial_uploadedChunks = Some [0, 1, 2, 3, 4],
         partial_uploadToken = None, partial_createdAt = None, partial_updatedAt = Some 5\<rparr>"
  have a: "isAvailable ?st" by (simp add: isAvailable_def)
  have s: "[''task-1'' \<mapsto> ?r] (taskId ?r) = Some ?r" by simp
  from updateRecord_frame [where this = ?st and store = "[''task-1'' \<mapsto> ?r]" and r = ?r
      and p = ?p and now = 1700000000042] a s
  show ?thesis
    by (simp add: mergeRecord_def)
qed

section \<open>Properties of resuming a task\<close>

text \<open>
  C7: for every stored upload record and every re-selected file whose name, size or
  type differs from the record's \<open>FileInfo\<close>, \<open>resumeTask(taskId, file)\<close> throws the error of
  the first field that differs, in the order name, size, type. The message starts with
  \<open>File name mismatch\<close>, is \<open>File size mismatch: expected X, got Y\<close>, or starts with
  \<open>File type mismatch\<close>; the name and type messages go on with the expected and the
  received value in double quotes. No task is created: the manager, with its task
  registry, and the object store are as before the call.
\<close>

theorem resumeTask_mismatch:
  assumes "isAvailable (storage this)" and "store tid = Some r"
  shows "(file_name f \<noteq> fileInfo_name (fileInfo r) \<longrightarrow>
            resumeTask tid f opts onsuccess delete_outcome this store =
              (Inl (Error (''File name mismatch: expected '' @ quoted (fileInfo_name (fileInfo r))
                           @ '', got '' @ quoted (file_name f))), this, store))
       \<and> (file_name f = fileInfo_name (fileInfo r)
            \<and> file_size f \<noteq> fileInfo_size (fileInfo r) \<longrightarrow>
            resumeTask tid f opts onsuccess delete_outcome this store =
              (Inl (Error (''File size mismatch: expected '' @ show_int (fileInfo_size (fileInfo r))
                           @ '', got '' @ show_int (file_size f))), this, store))
       \<and> (file_name f = fileInfo_name (fileInfo r)
            \<and> file_size f = fileInfo_size (fileInfo r)
            \<and> file_type f \<noteq> fileInfo_type (fileInfo r) \<longrightarrow>
            resumeTask tid f opts onsuccess delete_outcome this store =
              (Inl (Error (''File type mismatch: expected '' @ quoted (fileInfo_type (fileInfo r))
                           @ '', got '' @ quoted (file_type f))), this, store))
       \<and> (file_name f \<noteq> fileInfo_name (fileInfo r)
            \<or> file_size f \<noteq> fileInfo_size (fileInfo r)
            \<or> file_type f \<noteq> fileInfo_type (fileInfo r) \<longrightarrow>
            (\<exists>e. fst (resumeTask tid f opts onsuccess delete_outcome this store) = Inl e)
            \<and> tasks (fst (snd (resumeTask tid f opts onsuccess delete_outcome this store))) = tasks this)"
  using assms
  by (auto simp: resumeTask_def getRecord_def isAvailable_def)

theorem resumeTask_mismatch_witness:
  "isAvailable (storage
      \<lparr>tasks = [], defaultChunkSize = 1048576, defaultConcurrency = 3,
       storage = \<lparr>db = Some IDBDatabase, isSupported = True\<rparr>, initialized = True,
       plugins = [], hook_calls = [], console = []\<rparr>)
   \<and> resumeTask ''task_123''
        \<lparr>file_name = ''test.txt'', file_size = 2048, file_type = ''text/plain'',
         file_lastModified = 1700000000000\<rparr>
        None onsuccess onsuccess
        \<lparr>tasks = [], defaultChunkSize = 1048576, defaultConcurrency = 3,
         storage = \<lparr>db = Some IDBDatabase, isSupported = True\<rparr>, initialized = True,
         plugins = [], hook_calls = [], console = []\<rparr>
        [''task_123'' \<mapsto> \<lparr>taskId = ''task_123'',
           fileInfo = \<lparr>fileInfo_name = ''test.txt'', fileInfo_size = 1024,
                       fileInfo_type = ''text/plain'', fileInfo_hash = None,
                       fileInfo_lastModified = 1700000000000\<rparr>,
           uploadedChunks = [0], uploadToken = ''mock-token'',
           createdAt = 1700000000000, updatedAt = 1700000000000\<rparr>]
      = (Inl (Error ''File size mismatch: expected 1024, got 2048''),
         \<lparr>tasks = [], defaultChunkSize = 1048576, defaultConcurrency = 3,
          storage = \<lparr>db = Some IDBDatabase, isSupported = True\<rparr>, initialized = True,
          plugins = [], hook_calls = [], console = []\<rparr>,
         [''task_123'' \<mapsto> \<lparr>taskId = ''task_123'',
           fileInfo = \<lparr>fileInfo_name = ''test.txt'', fileInfo_size = 1024,
                       fileInfo_type = ''text/plain'', fileInfo_hash = None,
                       fileInfo_lastModified = 1700000000000\<rparr>,
           uploadedChunks = [0], uploadToken = ''mock-token'',
           createdAt = 1700000000000, updatedAt = 1700000000000\<rparr>])"
proof -
  let ?m = "\<lparr>tasks = [], defaultChunkSize = 1048576, defaultConcurrency = 3,
       storage = \<lparr>db = Some IDBDatabase, isSupported = True\<rparr>, initialized = True,
       plugins = [], hook_calls = [], console = []\<rparr>"
  let ?r = "\<lparr>taskId = ''task_123'',
           fileInfo = \<lparr>fileInfo_name = ''test.txt'', fileInfo_size = 1024,
                       fileInfo_type = ''text/plain'', fileInfo_hash = None,
                       fileInfo_lastModified = 1700000000000\<rparr>,
           uploadedChunks = [0], uploadToken = ''mock-token'',
           createdAt = 1700000000000, updatedAt = 1700000000000\<rparr>"
  let ?f = "\<lparr>file_name = ''test.txt'', file_size = 2048, file_type = ''text/plain'',
         file_lastModified = 1700000000000\<rparr>"
  have a: "isAvailable (storage ?m)" by (simp add: isAvailable_def)
  have s: "[''task_123'' \<mapsto> ?r] ''task_123'' = Some ?r" by simp
  have m: "''File size mismatch: expected '' @ show_int 1024 @ '', got '' @ show_int 2048
             = ''File size mismatch: expected 1024, got 2048''"
    by (simp add: show_int_def show_nat.simps digit_char_def)
  from resumeTask_mismatch [where this = ?m and store = "[''task_123'' \<mapsto> ?r]" and tid = "''task_123''"
      and r = ?r and f = ?f and opts = None and delete_outcome = onsuccess] a s m
  show ?thesis by simp
qed

section \<open>Properties of serving a file\<close>

text \<open>Rendering a number and reading it back.\<close>

lemma digit_char_props:
  assumes "d < 10"
  shows "is_digit (digit_char d)" and "of_char (digit_char d) = (48 + d :: nat)"
proof -
  from assms have "d \<in> {0, 1, 2, 3, 4, 5, 6, 7, 8, 9}" by auto
  then show "is_digit (digit_char d)" and "of_char (digit_char d) = (48 + d :: nat)"
    by (auto simp: digit_char_def is_digit_def)
qed

lemma show_nat_digits: "\<forall>c \<in> set (show_nat n). is_digit c"
proof (induction n rule: show_nat.induct)
  case (1 n)
  show ?case
  proof (cases "n < 10")
    case True
    then show ?thesis by (subst show_nat.simps) (simp add: digit_char_props)
  next
    case False
    with 1 have "\<forall>c \<in> set (show_nat (n div 10)). is_digit c" by simp
    moreover have "is_digit (digit_char (n mod 10))" by (simp add: digit_char_props)
    ultimately show ?thesis using False by (subst show_nat.simps) auto
  qed
qed

lemma show_nat_nonempty: "show_nat n \<noteq> []"
  by (subst show_nat.simps) simp

lemma foldl_digits_snoc:
  "foldl (\<lambda>acc c. 10 * acc + (of_char c - 48)) a (ds @ [c])
     = 10 * foldl (\<lambda>acc c. 10 * acc + (of_char c - 48)) a ds + (of_char c - (48::nat))"
  by simp

lemma parseInt_show_nat: "parseInt (show_nat n) = int n"
proof (induction n rule: show_nat.induct)
  case (1 n)
  show ?case
  proof (cases "n < 10")
    case True
    then show ?thesis
      by (subst show_nat.simps) (simp add: parseInt_def digit_char_props)
  next
    case False
    with 1 have ih: "foldl (\<lambda>acc c. 10 * acc + (of_char c - 48)) 0 (show_nat (n div 10)) = n div 10"
      by (simp add: parseInt_def)
    have "of_char (digit_char (n mod 10)) - (48::nat) = n mod 10"
      by (simp add: digit_char_props)
    with ih False show ?thesis
      by (subst show_nat.simps) (simp add: parseInt_def)
  qed
qed

lemma not_digit_minus: "\<not> is_digit (CHR ''-'')"
  by (simp add: is_digit_def)

lemma match_here_range:
  "match_here (''bytes='' @ show_nat a @ ''-'' @ show_nat b) = Some (show_nat a, show_nat b)"
proof -
  have d: "\<And>x. x \<in> set (show_nat a) \<Longrightarrow> is_digit x" "\<And>x. x \<in> set (show_nat b) \<Longrightarrow> is_digit x"
    using show_nat_digits by blast+
  have t: "takeWhile is_digit (show_nat a @ CHR ''-'' # show_nat b) = show_nat a"
    using d(1) by (simp add: not_digit_minus)
  have r: "dropWhile is_digit (show_nat a @ CHR ''-'' # show_nat b) = CHR ''-'' # show_nat b"
    using d(1) by (simp add: not_digit_minus)
  have t2: "takeWhile is_digit (show_nat b) = show_nat b"
    using d(2) by (simp add: takeWhile_eq_all_conv)
  show ?thesis
    by (simp add: match_here_def t r t2 show_nat_nonempty)
qed

lemma match_range_range:
  "match_range (''bytes='' @ show_nat a @ ''-'' @ show_nat b) = Some (show_nat a, show_nat b)"
proof -
  have "match_range (CHR ''b'' # (''ytes='' @ show_nat a @ ''-'' @ show_nat b))
          = Some (show_nat a, show_nat b)"
    using match_here_range [of a b] by (simp del: match_here_def)
  then show ?thesis by simp
qed

lemma parse_range_range:
  assumes "0 \<le> s" "s \<le> e" "e < n"
  shows "parse_range (Some (''bytes='' @ show_int s @ ''-'' @ show_int e)) n = Some (s, e)"
proof -
  define h where "h = ''bytes='' @ show_int s @ ''-'' @ show_int e"
  from assms have si: "show_int s = show_nat (nat s)" "show_int e = show_nat (nat e)"
    by (simp_all add: show_int_def)
  have m: "match_range h = Some (show_nat (nat s), show_nat (nat e))"
    unfolding h_def si by (rule match_range_range)
  have ne: "h \<noteq> []" by (simp add: h_def)
  have "parse_range (Some h) n = Some (s, e)"
    using assms by (simp add: parse_range_def m ne parseInt_show_nat show_nat_nonempty)
  then show ?thesis by (simp only: h_def)
qed

lemma read_chunks_range:
  "read_chunks off (Some (s, e)) cs
     = take (nat (e + 1 - max s off)) (drop (nat (s - off)) (concat cs))"
proof (induction cs arbitrary: off)
  case Nil
  show ?case by simp
next
  case (Cons c cs)
  let ?n = "int (length c)"
  have head: "(let lo = max s off; hi = min e (off + ?n - 1)
               in if lo \<le> hi then take (nat (hi - lo + 1)) (drop (nat (lo - off)) c) else [])
             = take (nat (e + 1 - max s off)) (drop (nat (s - off)) c)"
    by (cases c) (auto simp: Let_def max_def min_def algebra_simps)
  have tail: "read_chunks (off + ?n) (Some (s, e)) cs
             = take (nat (e + 1 - max s off) - (length c - nat (s - off)))
                 (drop (nat (s - off) - length c) (concat cs))"
  proof -
    have 1: "nat (s - (off + ?n)) = nat (s - off) - length c" by linarith
    have 2: "nat (e + 1 - max s (off + ?n)) = nat (e + 1 - max s off) - (length c - nat (s - off))"
      by (auto simp: max_def)
    show ?thesis by (simp only: Cons.IH 1 2)
  qed
  show ?case
    by (simp only: read_chunks.simps option.case prod.case head tail concat.simps
          drop_append take_append length_drop)
qed

text \<open>
  The handler itself: for a completed file whose size \<open>N\<close> is the length of the
  concatenation of its chunk blobs in manifest order, and offsets \<open>0 \<le> s \<le> e < N\<close>,
  \<open>getFile\<close> with the range header \<open>bytes=s-e\<close> answers with status 206, \<open>Content-Range\<close>
  equal to \<open>bytes s-e/N\<close>, \<open>Content-Length\<close> equal to \<open>e - s + 1\<close>, and as body the
  \<open>e - s + 1\<close> bytes that start at offset \<open>s\<close> of that concatenation.
\<close>

lemma getFile_ranged_read:
  assumes "manifests uploadService fileId = Some m"
    and "status m = completed"
    and "those (map (blobs uploadService) (chunkHashes m)) = Some chunks"
    and "metadata_size m = int (length (concat chunks))"
    and "0 \<le> s" and "s \<le> e" and "e < metadata_size m"
  shows "getFile uploadService fileId (Some (''bytes='' @ show_int s @ ''-'' @ show_int e))
           = Inr \<lparr>statusCode = 206,
                  headers =
                    [(''Content-Type'',
                      HString (case mimeType m of
                                 None \<Rightarrow> ''application/octet-stream''
                               | Some t \<Rightarrow> if t = [] then ''application/octet-stream'' else t)),
                     (''Accept-Ranges'', HString ''bytes''),
                     (''Content-Range'',
                      HString (''bytes '' @ show_int s @ ''-'' @ show_int e @ ''/''
                               @ show_int (metadata_size m))),
                     (''Content-Length'', HNumber (e - s + 1))],
                  payload = take (nat (e - s + 1)) (drop (nat s) (concat chunks))\<rparr>
       \<and> int (length (take (nat (e - s + 1)) (drop (nat s) (concat chunks)))) = e - s + 1"
proof -
  define h where "h = ''bytes='' @ show_int s @ ''-'' @ show_int e"
  have r: "parse_range (Some h) (metadata_size m) = Some (s, e)"
    unfolding h_def using assms(5-7) by (rule parse_range_range)
  have b: "read_chunks 0 (Some (s, e)) chunks
             = take (nat (e - s + 1)) (drop (nat s) (concat chunks))"
    using assms(5) by (simp add: read_chunks_range max_def algebra_simps)
  have g: "getFileStream uploadService fileId (Some (s, e))
             = Inr (Some \<lparr>stream = take (nat (e - s + 1)) (drop (nat s) (concat chunks)),
                              stream_mimeType = mimeType m\<rparr>)"
    using assms(1-3) by (simp add: getFileStream_def b)
  have "getFile uploadService fileId (Some h)
           = Inr \<lparr>statusCode = 206,
                  headers =
                    [(''Content-Type'',
                      HString (case mimeType m of
                                 None \<Rightarrow> ''application/octet-stream''
                               | Some t \<Rightarrow> if t = [] then ''application/octet-stream'' else t)),
                     (''Accept-Ranges'', HString ''bytes''),
                     (''Content-Range'',
                      HString (''bytes '' @ show_int s @ ''-'' @ show_int e @ ''/''
                               @ show_int (metadata_size m))),
                     (''Content-Length'', HNumber (e - s + 1))],
                  payload = take (nat (e - s + 1)) (drop (nat s) (concat chunks))\<rparr>"
    using assms(1,2) by (simp add: getFile_def getFileMetadata_def r g)
  then have 1: "getFile uploadService fileId (Some (''bytes='' @ show_int s @ ''-'' @ show_int e))
           = Inr \<lparr>statusCode = 206,
                  headers =
                    [(''Content-Type'',
                      HString (case mimeType m of
                                 None \<Rightarrow> ''application/octet-stream''
                               | Some t \<Rightarrow> if t = [] then ''application/octet-stream'' else t)),
                     (''Accept-Ranges'', HString ''bytes''),
                     (''Content-Range'',
                      HString (''bytes '' @ show_int s @ ''-'' @ show_int e @ ''/''
                               @ show_int (metadata_size m))),
                     (''Content-Length'', HNumber (e - s + 1))],
                  payload = take (nat (e - s + 1)) (drop (nat s) (concat chunks))\<rparr>"
    by (simp only: h_def)
  have 2: "int (length (take (nat (e - s + 1)) (drop (nat s) (concat chunks)))) = e - s + 1"
    using assms(4-7) by simp
  from 1 2 show ?thesis by (rule conjI)
qed

lemma route_getFile_upload_files:
  assumes "fileId \<noteq> []" and "CHR ''/'' \<notin> set fileId"
  shows "route_getFile (''/upload/files/'' @ fileId) = Some fileId"
  using assms by (simp add: route_getFile_def)

text \<open>
  C3, as stated, for the completed 10-byte file \<open>X\<close> with the chunks \<open>abcd\<close>, \<open>efgh\<close>, \<open>ij\<close>:
  the path \<open>/files/X\<close> is not the route of \<open>getFile\<close>, so a \<open>GET /files/X\<close> request with
  \<open>Range: bytes=3-8\<close> does not reach the handler and gets no 206 answer from it, while the
  same request to \<open>/upload/files/X\<close> gets the 206 answer with the six bytes.
\<close>

theorem get_files_route_counterexample:
  "GET_request
     \<lparr>manifests = [''X'' \<mapsto> \<lparr>chunkHashes = [''h1'', ''h2'', ''h3''], metadata_size = 10,
                                mimeType = Some ''text/plain'', status = completed\<rparr>],
      blobs = [''h1'' \<mapsto> ''abcd'', ''h2'' \<mapsto> ''efgh'', ''h3'' \<mapsto> ''ij'']\<rparr>
     ''/files/X'' (Some ''bytes=3-8'')
   = None
   \<and> GET_request
     \<lparr>manifests = [''X'' \<mapsto> \<lparr>chunkHashes = [''h1'', ''h2'', ''h3''], metadata_size = 10,
                                mimeType = Some ''text/plain'', status = completed\<rparr>],
      blobs = [''h1'' \<mapsto> ''abcd'', ''h2'' \<mapsto> ''efgh'', ''h3'' \<mapsto> ''ij'']\<rparr>
     ''/upload/files/X'' (Some ''bytes=3-8'')
   = Some (Inr \<lparr>statusCode = 206,
          headers = [(''Content-Type'', HString ''text/plain''),
                     (''Accept-Ranges'', HString ''bytes''),
                     (''Content-Range'', HString ''bytes 3-8/10''),
                     (''Content-Length'', HNumber 6)],
          payload = ''defghi''\<rparr>)"
proof -
  let ?m = "\<lparr>chunkHashes = [''h1'', ''h2'', ''h3''], metadata_size = 10,
            mimeType = Some ''text/plain'', status = completed\<rparr>"
  let ?svc = "\<lparr>manifests = [''X'' \<mapsto> ?m],
      blobs = [''h1'' \<mapsto> ''abcd'', ''h2'' \<mapsto> ''efgh'', ''h3'' \<mapsto> ''ij'']\<rparr>"
  have n: "GET_request ?svc ''/files/X'' (Some ''bytes=3-8'') = None"
    by (simp add: GET_request_def route_getFile_def)
  have 1: "manifests ?svc ''X'' = Some ?m" by simp
  have 2: "status ?m = completed" by simp
  have 3: "those (map (blobs ?svc) (chunkHashes ?m)) = Some [''abcd'', ''efgh'', ''ij'']" by simp
  have 4: "metadata_size ?m = int (length (concat [''abcd'', ''efgh'', ''ij'']))" by simp
  have 5: "(0::int) \<le> 3" "(3::int) \<le> 8" "(8::int) < metadata_size ?m" by simp_all
  have sh: "show_int 3 = ''3''" "show_int 8 = ''8''" "show_int 10 = ''10''"
    by (simp_all add: show_int_def show_nat.simps digit_char_def)
  have r: "route_getFile ''/upload/files/X'' = Some ''X''"
    by (simp add: route_getFile_def)
  have g: "getFile ?svc ''X'' (Some ''bytes=3-8'')
    = Inr \<lparr>statusCode = 206,
          headers = [(''Content-Type'', HString ''text/plain''),
                     (''Accept-Ranges'', HString ''bytes''),
                     (''Content-Range'', HString ''bytes 3-8/10''),
                     (''Content-Length'', HNumber 6)],
          payload = ''defghi''\<rparr>"
    using getFile_ranged_read [OF 1 2 3 4 5] by (simp add: sh)
  have y: "GET_request ?svc ''/upload/files/X'' (Some ''bytes=3-8'')
    = Some (Inr \<lparr>statusCode = 206,
          headers = [(''Content-Type'', HString ''text/plain''),
                     (''Accept-Ranges'', HString ''bytes''),
                     (''Content-Range'', HString ''bytes 3-8/10''),
                     (''Content-Length'', HNumber 6)],
          payload = ''defghi''\<rparr>)"
    unfolding GET_request_def r by (simp only: g option.case)
  from n y show ?thesis by (rule conjI)
qed

text \<open>
  C3, amended: for every completed file of total size \<open>N\<close> assembled from its ordered
  chunks, whose id is one non-empty path segment, and every pair of byte offsets
  \<open>0 \<le> s \<le> e < N\<close>, a \<open>GET /upload/files/{fileId}\<close> request with the header
  \<open>Range: bytes=s-e\<close> responds with status 206, \<open>Content-Range\<close> equal to \<open>bytes s-e/N\<close>,
  \<open>Content-Length\<close> equal to \<open>e - s + 1\<close>, and a body equal to the \<open>e - s + 1\<close> bytes starting
  at offset \<open>s\<close> of the concatenation of the file's chunks in manifest order.
\<close>

theorem get_upload_files_ranged_read:
  assumes "manifests uploadService fileId = Some m"
    and "status m = completed"
    and "those (map (blobs uploadService) (chunkHashes m)) = Some chunks"
    and "metadata_size m = int (length (concat chunks))"
    and "fileId \<noteq> []" and "CHR ''/'' \<notin> set fileId"
    and "0 \<le> s" and "s \<le> e" and "e < metadata_size m"
  shows "GET_request uploadService (''/upload/files/'' @ fileId)
             (Some (''bytes='' @ show_int s @ ''-'' @ show_int e))
           = Some (Inr \<lparr>statusCode = 206,
                  headers =
                    [(''Content-Type'',
                      HString (case mimeType m of
                                 None \<Rightarrow> ''application/octet-stream''
                               | Some t \<Rightarrow> if t = [] then ''application/octet-stream'' else t)),
                     (''Accept-Ranges'', HString ''bytes''),
                     (''Content-Range'',
                      HString (''bytes '' @ show_int s @ ''-'' @ show_int e @ ''/''
                               @ show_int (metadata_size m))),
                     (''Content-Length'', HNumber (e - s + 1))],
                  payload = take (nat (e - s + 1)) (drop (nat s) (concat chunks))\<rparr>)
       \<and> int (length (take (nat (e - s + 1)) (drop (nat s) (concat chunks)))) = e - s + 1"
proof -
  have r: "route_getFile (''/upload/files/'' @ fileId) = Some fileId"
    using assms(5,6) by (rule route_getFile_upload_files)
  note g = getFile_ranged_read [OF assms(1-4) assms(7-9)]
  have "GET_request uploadService (''/upload/files/'' @ fileId)
             (Some (''bytes='' @ show_int s @ ''-'' @ show_int e))
          = Some (getFile uploadService fileId (Some (''bytes='' @ show_int s @ ''-'' @ show_int e)))"
    unfolding GET_request_def r by (simp only: option.case)
  with g show ?thesis by (simp only:) 
qed

theorem get_upload_files_ranged_read_witness:
  "GET_request
     \<lparr>manifests = [''X'' \<mapsto> \<lparr>chunkHashes = [''h1'', ''h2'', ''h3''], metadata_size = 10,
                                mimeType = Some ''text/plain'', status = completed\<rparr>],
      blobs = [''h1'' \<mapsto> ''abcd'', ''h2'' \<mapsto> ''efgh'', ''h3'' \<mapsto> ''ij'']\<rparr>
     ''/upload/files/X'' (Some ''bytes=3-8'')
   = Some (Inr \<lparr>statusCode = 206,
          headers = [(''Content-Type'', HString ''text/plain''),
                     (''Accept-Ranges'', HString ''bytes''),
                     (''Content-Range'', HString ''bytes 3-8/10''),
                     (''Content-Length'', HNumber 6)],
          payload = ''defghi''\<rparr>)"
proof -
  let ?m = "\<lparr>chunkHashes = [''h1'', ''h2'', ''h3''], metadata_size = 10,
            mimeType = Some ''text/plain'', status = completed\<rparr>"
  let ?svc = "\<lparr>manifests = [''X'' \<mapsto> ?m],
      blobs = [''h1'' \<mapsto> ''abcd'', ''h2'' \<mapsto> ''efgh'', ''h3'' \<mapsto> ''ij'']\<rparr>"
  have 1: "manifests ?svc ''X'' = Some ?m" by simp
  have 2: "status ?m = completed" by simp
  have 3: "those (map (blobs ?svc) (chunkHashes ?m)) = Some [''abcd'', ''efgh'', ''ij'']" by simp
  have 4: "metadata_size ?m = int (length (concat [''abcd'', ''efgh'', ''ij'']))" by simp
  have 5: "''X'' \<noteq> []" "CHR ''/'' \<notin> set ''X''" by simp_all
  have 6: "(0::int) \<le> 3" "(3::int) \<le> 8" "(8::int) < metadata_size ?m" by simp_all
  have sh: "show_int 3 = ''3''" "show_int 8 = ''8''" "show_int 10 = ''10''"
    by (simp_all add: show_int_def show_nat.simps digit_char_def)
  from get_upload_files_ranged_read [OF 1 2 3 4 5 6] show ?thesis
    by (simp add: sh)
qed

section \<open>Properties of the concurrency controller\<close>

text \<open>
  C9, as stated, on a controller with limit 1: unit 1 runs, unit 2 waits, \<open>updateLimit(5)\<close>
  replaces the limiter, \<open>clearQueue()\<close> clears the new limiter's queue. \<open>pendingCount\<close> is
  0, but unit 2 is still queued on the replaced limiter, and when unit 1 settles unit 2
  executes.
\<close>

theorem clearQueue_after_updateLimit_counterexample:
  "pending_units (steps [Run 1, Run 2, UpdateLimit 5, ClearQueue] (new_ConcurrencyController 1)) = [2]
   \<and> pendingCount (steps [Run 1, Run 2, UpdateLimit 5, ClearQueue] (new_ConcurrencyController 1)) = 0
   \<and> active_units (steps [Run 1, Run 2, UpdateLimit 5, ClearQueue] (new_ConcurrencyController 1)) = [1]
   \<and> active_units (steps [Run 1, Run 2, UpdateLimit 5, ClearQueue, Settle 1] (new_ConcurrencyController 1))
       = [2]"
  by (simp add: new_ConcurrencyController_def run_def updateLimit_def clearQueue_def settle_def
      pLimit_def limiter_call_def limiter_next_def limiter_settle_def limiter_clearQueue_def
      pending_units_def active_units_def pendingCount_def)

text \<open>Which units a limiter holds after each of its operations.\<close>

lemma limiter_next_units:
  "set (queue (limiter_next l)) \<union> set (active (limiter_next l)) = set (queue l) \<union> set (active l)"
  by (auto simp: limiter_next_def split: list.splits)

lemma limiter_call_units:
  "set (queue (limiter_call fn l)) \<union> set (active (limiter_call fn l))
     = insert fn (set (queue l) \<union> set (active l))"
  by (simp add: limiter_call_def limiter_next_units)

lemma limiter_settle_units:
  "set (queue (limiter_settle fn l)) \<union> set (active (limiter_settle fn l))
     \<subseteq> set (queue l) \<union> set (active l)"
proof (cases "fn \<in> set (active l)")
  case True
  have "set (queue (limiter_settle fn l)) \<union> set (active (limiter_settle fn l))
          = set (queue l) \<union> set (remove1 fn (active l))"
    using True limiter_next_units [of "l\<lparr>active := remove1 fn (active l)\<rparr>"]
    by (simp add: limiter_settle_def)
  also have "\<dots> \<subseteq> set (queue l) \<union> set (active l)"
    using set_remove1_subset [of fn "active l"] by blast
  finally show ?thesis .
next
  case False
  then show ?thesis by (simp add: limiter_settle_def)
qed

lemma limiter_clearQueue_units:
  "set (queue (limiter_clearQueue l)) \<union> set (active (limiter_clearQueue l))
     \<subseteq> set (queue l) \<union> set (active l)"
  by (simp add: limiter_clearQueue_def)

lemma units_eq: "units this = set (pending_units this) \<union> set (active_units this)"
  by (auto simp: units_def pending_units_def active_units_def)

lemma units_update:
  assumes "i < length (limiters this)"
    and "set (queue l') \<union> set (active l') \<subseteq> A \<union> (set (queue (limiters this ! i)) \<union> set (active (limiters this ! i)))"
  shows "units (this\<lparr>limiters := (limiters this)[i := l']\<rparr>) \<subseteq> A \<union> units this"
proof
  fix u assume "u \<in> units (this\<lparr>limiters := (limiters this)[i := l']\<rparr>)"
  then obtain l where l: "l \<in> set ((limiters this)[i := l'])" "u \<in> set (queue l) \<union> set (active l)"
    by (auto simp: units_def)
  from l(1) have "l = l' \<or> l \<in> set (limiters this)"
    using set_update_subset_insert [of "limiters this" i l'] by auto
  then show "u \<in> A \<union> units this"
  proof
    assume "l = l'"
    with l(2) assms(2) have "u \<in> A \<union> (set (queue (limiters this ! i)) \<union> set (active (limiters this ! i)))"
      by blast
    moreover have "limiters this ! i \<in> set (limiters this)" using assms(1) by simp
    ultimately show ?thesis unfolding units_def by blast
  next
    assume "l \<in> set (limiters this)"
    with l(2) show ?thesis unfolding units_def by blast
  qed
qed

lemma units_update_out: 
  assumes "\<not> i < length (limiters this)"
  shows "units (this\<lparr>limiters := (limiters this)[i := l']\<rparr>) = units this"
  using assms by (simp add: units_def list_update_beyond not_less)

lemma step_units:
  "units (step e this) \<subseteq> (case e of Run fn \<Rightarrow> {fn} | _ \<Rightarrow> {}) \<union> units this"
proof (cases e)
  case (Run fn)
  show ?thesis
  proof (cases "limiter this < length (limiters this)")
    case True
    have "units (run fn this) \<subseteq> {fn} \<union> units this"
      unfolding run_def by (rule units_update [OF True]) (simp add: limiter_call_units)
    with Run show ?thesis by simp
  next
    case False
    with Run show ?thesis by (auto simp: run_def units_update_out)
  qed
next
  case (Settle fn)
  have "units (settle fn this) \<subseteq> units this"
    using limiter_settle_units by (fastforce simp: units_def settle_def)
  with Settle show ?thesis by simp
next
  case (UpdateLimit n)
  have "units (snd (updateLimit n this)) \<subseteq> units this"
    by (auto simp: updateLimit_def units_def pLimit_def)
  with UpdateLimit show ?thesis by simp
next
  case ClearQueue
  show ?thesis
  proof (cases "limiter this < length (limiters this)")
    case True
    have "units (clearQueue this) \<subseteq> {} \<union> units this"
      unfolding clearQueue_def by (rule units_update [OF True]) (simp add: limiter_clearQueue_def)
    with ClearQueue show ?thesis by simp
  next
    case False
    with ClearQueue show ?thesis by (auto simp: clearQueue_def units_update_out)
  qed
qed

lemma steps_never_runs:
  "u \<notin> units this \<Longrightarrow> Run u \<notin> set es \<Longrightarrow> u \<notin> units (steps es this)"
proof (induction es arbitrary: this)
  case Nil
  then show ?case by simp
next
  case (Cons e es)
  from Cons.prems have "u \<notin> units (step e this)"
    using step_units [of e this] by (cases e) auto
  with Cons show ?case by simp
qed

text \<open>
  Without an \<open>updateLimit\<close> call that succeeds the controller has the one limiter it was
  constructed with; a call with \<open>newLimit \<le> 0\<close> throws and changes nothing.
\<close>

lemma step_no_update_length:
  "(\<forall>k. e = UpdateLimit k \<longrightarrow> k \<le> 0) \<Longrightarrow> length (limiters (step e this)) = length (limiters this)"
  by (cases e) (simp_all add: run_def settle_def clearQueue_def updateLimit_def)

lemma steps_no_update_length:
  "\<forall>k. UpdateLimit k \<in> set es \<longrightarrow> k \<le> 0 \<Longrightarrow>
     length (limiters (steps es this)) = length (limiters this)"
proof (induction es arbitrary: this)
  case Nil
  show ?case by simp
next
  case (Cons e es)
  from Cons.prems have "\<forall>k. e = UpdateLimit k \<longrightarrow> k \<le> 0"
    "\<forall>k. UpdateLimit k \<in> set es \<longrightarrow> k \<le> 0" by auto
  with Cons.IH [of "step e this"] show ?case by (simp add: step_no_update_length)
qed

lemma no_update_single_limiter:
  "\<forall>k. UpdateLimit k \<in> set es \<longrightarrow> k \<le> 0 \<Longrightarrow>
     length (limiters (steps es (new_ConcurrencyController n))) = 1"
  by (simp add: steps_no_update_length new_ConcurrencyController_def)

text \<open>A limiter never runs more units than its limit allows.\<close>

lemma limiter_next_slots:
  "int (length (active l)) \<le> max 0 (limiter_concurrency l) \<Longrightarrow>
     int (length (active (limiter_next l))) \<le> max 0 (limiter_concurrency (limiter_next l))"
  by (auto simp: limiter_next_def split: list.splits)

lemma limiter_call_slots:
  "int (length (active l)) \<le> max 0 (limiter_concurrency l) \<Longrightarrow>
     int (length (active (limiter_call fn l))) \<le> max 0 (limiter_concurrency (limiter_call fn l))"
  unfolding limiter_call_def by (rule limiter_next_slots) simp

lemma limiter_settle_slots:
  assumes "int (length (active l)) \<le> max 0 (limiter_concurrency l)"
  shows "int (length (active (limiter_settle fn l))) \<le> max 0 (limiter_concurrency (limiter_settle fn l))"
proof (cases "fn \<in> set (active l)")
  case True
  have "int (length (active (l\<lparr>active := remove1 fn (active l)\<rparr>)))
          \<le> max 0 (limiter_concurrency (l\<lparr>active := remove1 fn (active l)\<rparr>))"
    using assms True by (simp add: length_remove1)
  then show ?thesis using True unfolding limiter_settle_def by (simp add: limiter_next_slots)
next
  case False
  with assms show ?thesis by (simp add: limiter_settle_def)
qed

lemma step_slots:
  assumes "\<forall>l \<in> set (limiters this). int (length (active l)) \<le> max 0 (limiter_concurrency l)"
  shows "\<forall>l \<in> set (limiters (step e this)). int (length (active l)) \<le> max 0 (limiter_concurrency l)"
proof (cases e)
  case (Run fn)
  show ?thesis
  proof (cases "limiter this < length (limiters this)")
    case True
    then have "limiters this ! limiter this \<in> set (limiters this)" by simp
    with assms have "int (length (active (limiter_call fn (limiters this ! limiter this))))
        \<le> max 0 (limiter_concurrency (limiter_call fn (limiters this ! limiter this)))"
      by (intro limiter_call_slots) blast
    with assms Run show ?thesis
      using set_update_subset_insert [of "limiters this" "limiter this"]
      by (auto simp: run_def)
  next
    case False
    with assms Run show ?thesis by (simp add: run_def list_update_beyond not_less)
  qed
next
  case (Settle fn)
  with assms show ?thesis by (auto simp: settle_def intro: limiter_settle_slots)
next
  case (UpdateLimit k)
  with assms show ?thesis by (auto simp: updateLimit_def pLimit_def)
next
  case ClearQueue
  show ?thesis
  proof (cases "limiter this < length (limiters this)")
    case True
    then have "limiters this ! limiter this \<in> set (limiters this)" by simp
    with assms have "int (length (active (limiter_clearQueue (limiters this ! limiter this))))
        \<le> max 0 (limiter_concurrency (limiter_clearQueue (limiters this ! limiter this)))"
      by (simp add: limiter_clearQueue_def)
    with assms ClearQueue show ?thesis
      using set_update_subset_insert [of "limiters this" "limiter this"]
      by (auto simp: clearQueue_def)
  next
    case False
    with assms ClearQueue show ?thesis by (simp add: clearQueue_def list_update_beyond not_less)
  qed
qed

lemma steps_slots:
  "\<forall>l \<in> set (limiters this). int (length (active l)) \<le> max 0 (limiter_concurrency l) \<Longrightarrow>
   \<forall>l \<in> set (limiters (steps es this)). int (length (active l)) \<le> max 0 (limiter_concurrency l)"
proof (induction es arbitrary: this)
  case Nil
  then show ?case by simp
next
  case (Cons e es)
  from Cons.prems have "\<forall>l \<in> set (limiters (step e this)).
      int (length (active l)) \<le> max 0 (limiter_concurrency l)"
    by (rule step_slots)
  then show ?case using Cons.IH [of "step e this"] by simp
qed

lemma reachable_slots:
  "\<forall>l \<in> set (limiters (steps es (new_ConcurrencyController n))).
     int (length (active l)) \<le> max 0 (limiter_concurrency l)"
  by (rule steps_slots) (simp add: new_ConcurrencyController_def pLimit_def)

text \<open>
  When an active unit of a limiter settles, the unit at the head of that limiter's queue
  starts, whether the controller still refers to the limiter or not.
\<close>

lemma settle_releases_head:
  assumes "i < length (limiters this)"
    and "queue (limiters this ! i) = u # rest"
    and "v \<in> set (active (limiters this ! i))"
    and "int (length (active (limiters this ! i))) \<le> max 0 (limiter_concurrency (limiters this ! i))"
  shows "u \<in> set (active (limiters (settle v this) ! i))"
proof -
  let ?l = "limiters this ! i"
  from assms(3) obtain m where m: "length (active ?l) = Suc m"
    by (cases "active ?l") auto
  with assms(3) have "int (length (remove1 v (active ?l))) = int m"
    by (simp add: length_remove1)
  moreover from assms(4) m have "int m < limiter_concurrency ?l"
    by (simp add: max_def split: if_splits)
  ultimately have "int (length (remove1 v (active ?l))) < limiter_concurrency ?l"
    by simp
  with assms(2,3) have "u \<in> set (active (limiter_settle v ?l))"
    by (simp add: limiter_settle_def limiter_next_def)
  with assms(1) show ?thesis by (simp add: settle_def)
qed

text \<open>\<open>this.limiter\<close> always refers to a limiter that exists.\<close>

lemma step_limiter_valid:
  "limiter this < length (limiters this) \<Longrightarrow> limiter (step e this) < length (limiters (step e this))"
  by (cases e) (simp_all add: run_def settle_def updateLimit_def clearQueue_def)

lemma steps_limiter_valid:
  "limiter this < length (limiters this) \<Longrightarrow> limiter (steps es this) < length (limiters (steps es this))"
  by (induction es arbitrary: this) (simp_all add: step_limiter_valid)

lemma reachable_limiter_valid:
  "limiter (steps es (new_ConcurrencyController n))
     < length (limiters (steps es (new_ConcurrencyController n)))"
  by (rule steps_limiter_valid) (simp add: new_ConcurrencyController_def)

lemma set_concat_map_nth:
  "set (concat (map f xs)) = (\<Union>j \<in> {j. j < length xs}. set (f (xs ! j)))"
proof -
  have "set xs = (\<lambda>j. xs ! j) ` {j. j < length xs}"
    by (auto simp: set_conv_nth)
  then have "(\<Union>x \<in> set xs. set (f x)) = (\<Union>j \<in> {j. j < length xs}. set (f (xs ! j)))"
    by simp
  then show ?thesis by simp
qed

lemma clearQueue_pending:
  assumes "limiter this < length (limiters this)"
  shows "set (pending_units (clearQueue this))
           = (\<Union>i \<in> {i. i < length (limiters this) \<and> i \<noteq> limiter this}. set (queue (limiters this ! i)))"
proof -
  let ?ls = "limiters this" and ?k = "limiter this"
  let ?ls' = "?ls[?k := limiter_clearQueue (?ls ! ?k)]"
  have q: "set (queue (?ls' ! j)) = (if j = ?k then {} else set (queue (?ls ! j)))"
    if "j < length ?ls" for j
    using that by (simp add: nth_list_update limiter_clearQueue_def)
  have "set (pending_units (clearQueue this)) = set (concat (map queue ?ls'))"
    by (simp add: pending_units_def clearQueue_def)
  also have "\<dots> = (\<Union>j \<in> {j. j < length ?ls'}. set (queue (?ls' ! j)))"
    by (rule set_concat_map_nth)
  also have "\<dots> = (\<Union>j \<in> {j. j < length ?ls}. set (queue (?ls' ! j)))"
    by simp
  also have "\<dots> = (\<Union>j \<in> {j. j < length ?ls}. if j = ?k then {} else set (queue (?ls ! j)))"
    using q by simp
  also have "\<dots> = (\<Union>i \<in> {i. i < length ?ls \<and> i \<noteq> ?k}. set (queue (?ls ! i)))"
    by (auto split: if_splits)
  finally show ?thesis .
qed

lemma clearQueue_valid:
  assumes "limiter this < length (limiters this)"
  shows "pendingCount (clearQueue this) = 0"
    and "map active (limiters (clearQueue this)) = map active (limiters this)"
    and "activeCount (clearQueue this) = activeCount this"
    and "active_units (clearQueue this) = active_units this"
    and "set (pending_units (clearQueue this))
           = (\<Union>i \<in> {i. i < length (limiters this) \<and> i \<noteq> limiter this}. set (queue (limiters this ! i)))"
    and "\<forall>i. i \<noteq> limiter this \<longrightarrow> limiters (clearQueue this) ! i = limiters this ! i"
proof -
  show "\<forall>i. i \<noteq> limiter this \<longrightarrow> limiters (clearQueue this) ! i = limiters this ! i"
    by (simp add: clearQueue_def)
  show "pendingCount (clearQueue this) = 0"
    using assms by (simp add: pendingCount_def clearQueue_def limiter_clearQueue_def)
  show m: "map active (limiters (clearQueue this)) = map active (limiters this)"
    using assms
    by (simp add: clearQueue_def limiter_clearQueue_def map_update list_update_same_conv)
  show "activeCount (clearQueue this) = activeCount this"
    using assms by (simp add: activeCount_def clearQueue_def limiter_clearQueue_def)
  show "active_units (clearQueue this) = active_units this"
    by (simp add: active_units_def m)
  show "set (pending_units (clearQueue this))
           = (\<Union>i \<in> {i. i < length (limiters this) \<and> i \<noteq> limiter this}. set (queue (limiters this ! i)))"
    using assms by (rule clearQueue_pending)
qed

text \<open>
  C9, amended: at every point in a controller's lifetime, \<open>clearQueue()\<close> discards exactly
  the units pending on the current limiter, the one created by the constructor or by
  the latest \<open>updateLimit\<close> call that did not throw: \<open>pendingCount\<close> becomes 0, every active
  unit stays active, and a unit that no limiter holds any more never executes unless it
  is submitted again. The units pending on a limiter that \<open>updateLimit\<close> replaced are not
  discarded: every replaced limiter is as before, the pending units that remain are
  exactly theirs, and the unit at the head of such a queue starts as soon as an active
  unit of that limiter settles. On a controller on which no \<open>updateLimit\<close> call succeeded
  no pending unit remains.
\<close>

theorem clearQueue_current_limiter:
  "pendingCount (clearQueue (steps es (new_ConcurrencyController n))) = 0
   \<and> active_units (clearQueue (steps es (new_ConcurrencyController n)))
       = active_units (steps es (new_ConcurrencyController n))
   \<and> activeCount (clearQueue (steps es (new_ConcurrencyController n)))
       = activeCount (steps es (new_ConcurrencyController n))
   \<and> set (pending_units (clearQueue (steps es (new_ConcurrencyController n))))
       = (\<Union>i \<in> {i. i < length (limiters (steps es (new_ConcurrencyController n)))
                      \<and> i \<noteq> limiter (steps es (new_ConcurrencyController n))}.
            set (queue (limiters (steps es (new_ConcurrencyController n)) ! i)))
   \<and> (\<forall>u later.
         u \<notin> set (pending_units (clearQueue (steps es (new_ConcurrencyController n))))
         \<and> u \<notin> set (active_units (clearQueue (steps es (new_ConcurrencyController n))))
         \<and> Run u \<notin> set later \<longrightarrow>
         u \<notin> set (active_units (steps later (clearQueue (steps es (new_ConcurrencyController n))))))
   \<and> ((\<forall>k. UpdateLimit k \<in> set es \<longrightarrow> k \<le> 0) \<longrightarrow>
         pending_units (clearQueue (steps es (new_ConcurrencyController n))) = [])
   \<and> (\<forall>i. i \<noteq> limiter (steps es (new_ConcurrencyController n)) \<longrightarrow>
         limiters (clearQueue (steps es (new_ConcurrencyController n))) ! i
           = limiters (steps es (new_ConcurrencyController n)) ! i)
   \<and> (\<forall>i u rest v.
         i < length (limiters (steps es (new_ConcurrencyController n)))
         \<and> i \<noteq> limiter (steps es (new_ConcurrencyController n))
         \<and> queue (limiters (steps es (new_ConcurrencyController n)) ! i) = u # rest
         \<and> v \<in> set (active (limiters (steps es (new_ConcurrencyController n)) ! i)) \<longrightarrow>
         u \<in> set (queue (limiters (clearQueue (steps es (new_ConcurrencyController n))) ! i))
         \<and> u \<in> set (active (limiters (settle v (clearQueue (steps es (new_ConcurrencyController n)))) ! i)))"
proof -
  let ?c = "steps es (new_ConcurrencyController n)"
  have v: "limiter ?c < length (limiters ?c)" by (rule reachable_limiter_valid)
  have never: "u \<notin> set (active_units (steps later (clearQueue ?c)))"
    if "u \<notin> set (pending_units (clearQueue ?c))" "u \<notin> set (active_units (clearQueue ?c))"
      "Run u \<notin> set later" for u later
  proof -
    from that(1,2) have "u \<notin> units (clearQueue ?c)" by (simp add: units_eq)
    then have "u \<notin> units (steps later (clearQueue ?c))" using that(3) by (rule steps_never_runs)
    then show ?thesis by (simp add: units_eq)
  qed
  have single: "pending_units (clearQueue ?c) = []" if "\<forall>k. UpdateLimit k \<in> set es \<longrightarrow> k \<le> 0"
  proof -
    from that have "length (limiters ?c) = 1" by (rule no_update_single_limiter)
    with v have "set (pending_units (clearQueue ?c)) = {}"
      by (auto simp: clearQueue_valid(5) [OF v])
    then show ?thesis by simp
  qed
  have others: "\<forall>i. i \<noteq> limiter ?c \<longrightarrow> limiters (clearQueue ?c) ! i = limiters ?c ! i"
    by (rule clearQueue_valid(6) [OF v])
  have released: "u \<in> set (queue (limiters (clearQueue ?c) ! i))
      \<and> u \<in> set (active (limiters (settle v (clearQueue ?c)) ! i))"
    if "i < length (limiters ?c)" "i \<noteq> limiter ?c" "queue (limiters ?c ! i) = u # rest"
      "v \<in> set (active (limiters ?c ! i))" for i u rest v
  proof -
    from others that(2) have same: "limiters (clearQueue ?c) ! i = limiters ?c ! i" by blast
    have len: "i < length (limiters (clearQueue ?c))"
      using that(1) by (simp add: clearQueue_def)
    have "limiters ?c ! i \<in> set (limiters ?c)" using that(1) by simp
    then have slots: "int (length (active (limiters (clearQueue ?c) ! i)))
        \<le> max 0 (limiter_concurrency (limiters (clearQueue ?c) ! i))"
      using reachable_slots [of es n] same by simp
    have "u \<in> set (active (limiters (settle v (clearQueue ?c)) ! i))"
      using len _ _ slots
    proof (rule settle_releases_head)
      show "queue (limiters (clearQueue ?c) ! i) = u # rest" using same that(3) by simp
      show "v \<in> set (active (limiters (clearQueue ?c) ! i))" using same that(4) by simp
    qed
    moreover have "u \<in> set (queue (limiters (clearQueue ?c) ! i))" using same that(3) by simp
    ultimately show ?thesis by blast
  qed
  have c1: "pendingCount (clearQueue ?c) = 0" by (rule clearQueue_valid(1) [OF v])
  have c2: "active_units (clearQueue ?c) = active_units ?c" by (rule clearQueue_valid(4) [OF v])
  have c3: "activeCount (clearQueue ?c) = activeCount ?c" by (rule clearQueue_valid(3) [OF v])
  have c4: "set (pending_units (clearQueue ?c))
       = (\<Union>i \<in> {i. i < length (limiters ?c) \<and> i \<noteq> limiter ?c}. set (queue (limiters ?c ! i)))"
    by (rule clearQueue_valid(5) [OF v])
  have c5: "\<forall>u later.
         u \<notin> set (pending_units (clearQueue ?c)) \<and> u \<notin> set (active_units (clearQueue ?c))
         \<and> Run u \<notin> set later \<longrightarrow>
         u \<notin> set (active_units (steps later (clearQueue ?c)))"
    using never by blast
  have c6: "(\<forall>k. UpdateLimit k \<in> set es \<longrightarrow> k \<le> 0) \<longrightarrow> pending_units (clearQueue ?c) = []"
    using single by blast
  have c8: "\<forall>i u rest v.
         i < length (limiters ?c) \<and> i \<noteq> limiter ?c \<and> queue (limiters ?c ! i) = u # rest
         \<and> v \<in> set (active (limiters ?c ! i)) \<longrightarrow>
         u \<in> set (queue (limiters (clearQueue ?c) ! i))
         \<and> u \<in> set (active (limiters (settle v (clearQueue ?c)) ! i))"
    using released by blast
  show ?thesis by (intro conjI) (fact c1 c2 c3 c4 c5 c6 others c8)+
qed

theorem clearQueue_current_limiter_witness:
  "pending_units (steps [Run 1, Run 2, UpdateLimit 1, UpdateLimit 0, Run 3, Run 4]
       (new_ConcurrencyController 1)) = [2, 4]
   \<and> pendingCount (clearQueue (steps [Run 1, Run 2, UpdateLimit 1, UpdateLimit 0, Run 3, Run 4]
       (new_ConcurrencyController 1))) = 0
   \<and> pending_units (clearQueue (steps [Run 1, Run 2, UpdateLimit 1, UpdateLimit 0, Run 3, Run 4]
       (new_ConcurrencyController 1))) = [2]
   \<and> active_units (clearQueue (steps [Run 1, Run 2, UpdateLimit 1, UpdateLimit 0, Run 3, Run 4]
       (new_ConcurrencyController 1))) = [1, 3]
   \<and> 2 \<in> set (active (limiters (settle 1 (clearQueue
       (steps [Run 1, Run 2, UpdateLimit 1, UpdateLimit 0, Run 3, Run 4]
         (new_ConcurrencyController 1)))) ! 0))
   \<and> 4 \<notin> set (active_units (steps [Settle 1, Settle 3, Run 5] (clearQueue
       (steps [Run 1, Run 2, UpdateLimit 1, UpdateLimit 0, Run 3, Run 4]
         (new_ConcurrencyController 1)))))"
proof -
  let ?es = "[Run 1, Run 2, UpdateLimit 1, UpdateLimit 0, Run 3, Run 4]"
  let ?c = "steps ?es (new_ConcurrencyController 1)"
  have c: "?c = \<lparr>limiters = [\<lparr>limiter_concurrency = 1, active = [1], queue = [2]\<rparr>,
                               \<lparr>limiter_concurrency = 1, active = [3], queue = [4]\<rparr>],
                   limiter = 1, currentLimit = 1\<rparr>"
    by (simp add: new_ConcurrencyController_def run_def updateLimit_def pLimit_def
        limiter_call_def limiter_next_def)
  have p0: "pending_units ?c = [2, 4]" by (simp only: c) (simp add: pending_units_def)
  have p1: "pending_units (clearQueue ?c) = [2]"
    by (simp only: c) (simp add: pending_units_def clearQueue_def limiter_clearQueue_def)
  have a1: "active_units (clearQueue ?c) = [1, 3]"
    by (simp only: c) (simp add: active_units_def clearQueue_def limiter_clearQueue_def)
  have h: "0 < length (limiters ?c)" "(0::nat) \<noteq> limiter ?c"
    "queue (limiters ?c ! 0) = 2 # []" "1 \<in> set (active (limiters ?c ! 0))"
    by (simp_all only: c) simp_all
  have l: "Run 4 \<notin> set [Settle 1, Settle 3, Run 5]" by simp
  note t = clearQueue_current_limiter [of ?es 1]
  note t1 = t [THEN conjunct1]
  note t5 = t [THEN conjunct2, THEN conjunct2, THEN conjunct2, THEN conjunct2, THEN conjunct1]
  note t8 = t [THEN conjunct2, THEN conjunct2, THEN conjunct2, THEN conjunct2, THEN conjunct2,
      THEN conjunct2, THEN conjunct2]
  have pc: "pendingCount (clearQueue ?c) = 0" by (rule t1)
  from t8 [rule_format, of 0 2 "[]" 1] h
  have r: "2 \<in> set (active (limiters (settle 1 (clearQueue ?c)) ! 0))" by blast
  from t5 [rule_format, of 4 "[Settle 1, Settle 3, Run 5]"] p1 a1 l
  have d: "4 \<notin> set (active_units (steps [Settle 1, Settle 3, Run 5] (clearQueue ?c)))"
    by simp
  show ?thesis by (intro conjI) (fact p0 pc p1 a1 r d)+
qed

end
